theory Spec2Isabelle
  imports Main "HOL-Library.Multiset"
begin

section \<open>Estoque Operacional: data model\<close>

text \<open>
  The dataclasses of \<^verbatim>\<open>estqop.py\<close> are records, the two \<^verbatim>\<open>IntEnum\<close>s are datatypes
  with their integer value given by a function. Python's unbounded integers are \<open>int\<close>;
  positions produced by \<^verbatim>\<open>enumerate\<close> are \<open>nat\<close>. A field name that occurs in two
  dataclasses keeps its name in the first record and gets a suffix in the later one
  (\<open>_nt\<close> for \<^verbatim>\<open>_NecessidadeTransferencia\<close>, \<open>_vpc\<close> for \<^verbatim>\<open>_QtdVendasPorCanal\<close>).
\<close>

record Produto =
  codigo :: int
  qtd_estoque :: int
  qtd_min_co :: int

datatype SituacaoVenda =
  CONFIRMADA_PGTO_OK
  | CONFIRMADA_PGTO_PENDENTE
  | CANCELADA
  | NAO_FINALIZADA
  | ERRO_NAO_IDENTIFICADO

fun SituacaoVenda_value :: "SituacaoVenda \<Rightarrow> int" where
  "SituacaoVenda_value CONFIRMADA_PGTO_OK = 100"
| "SituacaoVenda_value CONFIRMADA_PGTO_PENDENTE = 102"
| "SituacaoVenda_value CANCELADA = 135"
| "SituacaoVenda_value NAO_FINALIZADA = 190"
| "SituacaoVenda_value ERRO_NAO_IDENTIFICADO = 999"

definition is_confirmada :: "SituacaoVenda \<Rightarrow> bool" where
  "is_confirmada s = (s \<in> set [CONFIRMADA_PGTO_OK, CONFIRMADA_PGTO_PENDENTE])"

text \<open>
  Strings hold one Unicode code point per \<open>char\<close>; the two accented letters of the
  messages (U+00F3 and U+00E3) are below 256 and are written by their code.
\<close>

fun msg_erro :: "SituacaoVenda \<Rightarrow> string" where
  "msg_erro CANCELADA = ''Venda cancelada''"
| "msg_erro NAO_FINALIZADA = ''Venda n'' @ [CHR 0xE3] @ ''o finalizada''"
| "msg_erro ERRO_NAO_IDENTIFICADO = ''Erro desconhecido. Acionar equipe de TI.''"
| "msg_erro _ = ''N/A''"

datatype CanalVenda = REPR_COMERCIAL | WEBSITE | APP_ANDROID | APP_IOS

fun CanalVenda_value :: "CanalVenda \<Rightarrow> int" where
  "CanalVenda_value REPR_COMERCIAL = 1"
| "CanalVenda_value WEBSITE = 2"
| "CanalVenda_value APP_ANDROID = 3"
| "CanalVenda_value APP_IOS = 4"

record Venda =
  cod_produto :: int
  qtd :: int
  situacao :: SituacaoVenda
  canal :: CanalVenda

record VendasPorProduto =
  index :: nat
  produto :: Produto
  vendas :: "Venda list"

record NecessidadeTransferencia =
  cod_produto_nt :: int
  qtd_produto_co :: int
  qtd_min_produto_co :: int
  qtd_vendas :: int
  qtd_estoque_pos_vendas :: int
  qtd_necessidade :: int
  qtd_transf_arm_co :: int

section \<open>Library functions used by the program\<close>

text \<open>
  \<^verbatim>\<open>itertools.groupby(xs, key)\<close>: one group per maximal run of consecutive elements with
  equal keys, labelled with the key of the run's first element. \<^verbatim>\<open>sorted(xs, key=f)\<close> is
  a stable sort, which is \<^const>\<open>sort_key\<close>.
\<close>

function groupby :: "('a \<Rightarrow> 'k) \<Rightarrow> 'a list \<Rightarrow> ('k \<times> 'a list) list" where
  "groupby key [] = []"
| "groupby key (x # xs) =
     (key x, x # takeWhile (\<lambda>y. key y = key x) xs)
       # groupby key (dropWhile (\<lambda>y. key y = key x) xs)"
  by pat_completeness auto
termination
  by (relation "measure (\<lambda>(key, xs). length xs)") (auto simp: length_dropWhile_le less_Suc_eq_le)

section \<open>Transfer needs\<close>

definition NE_LO :: int where "NE_LO = 1"
definition NE_HI :: int where "NE_HI = 10"
definition NE_ESP :: int where "NE_ESP = 10"

text \<open>The generator handed to the first \<^verbatim>\<open>sorted\<close>: sales outermost, products innermost.\<close>

definition vendas_produtos_pares :: "Produto list \<Rightarrow> Venda list \<Rightarrow> VendasPorProduto list" where
  "vendas_produtos_pares produtos vs =
     concat (map (\<lambda>v.
         map (\<lambda>(i, p). \<lparr>index = i, produto = p, vendas = [v]\<rparr>)
           (filter (\<lambda>(i, p). cod_produto v = codigo p \<and> is_confirmada (situacao v))
              (enumerate 0 produtos)))
       vs)"

definition vendas_produtos_raw :: "Produto list \<Rightarrow> Venda list \<Rightarrow> VendasPorProduto list" where
  "vendas_produtos_raw produtos vs =
     sort_key (\<lambda>vp. codigo (produto vp)) (vendas_produtos_pares produtos vs)"

definition vendas_produtos_agrupados :: "Produto list \<Rightarrow> Venda list \<Rightarrow> VendasPorProduto list" where
  "vendas_produtos_agrupados produtos vs =
     map (\<lambda>(rvp, vps). \<lparr>index = fst rvp, produto = snd rvp, vendas = concat (map vendas vps)\<rparr>)
       (groupby (\<lambda>vp. (index vp, produto vp)) (vendas_produtos_raw produtos vs))"

definition vendas_produtos_ordem_original :: "Produto list \<Rightarrow> Venda list \<Rightarrow> VendasPorProduto list" where
  "vendas_produtos_ordem_original produtos vs =
     sort_key index (vendas_produtos_agrupados produtos vs)"

definition necessidade :: "VendasPorProduto \<Rightarrow> NecessidadeTransferencia" where
  "necessidade vp =
     (let qtd_vendas' = sum_list (map qtd (vendas vp));
          est_pos_venda = qtd_estoque (produto vp) - qtd_vendas';
          ne = \<bar>max (qtd_min_co (produto vp) - est_pos_venda) 0\<bar>
      in \<lparr>cod_produto_nt = codigo (produto vp),
          qtd_produto_co = qtd_estoque (produto vp),
          qtd_min_produto_co = qtd_min_co (produto vp),
          qtd_vendas = qtd_vendas',
          qtd_estoque_pos_vendas = est_pos_venda,
          qtd_necessidade = ne,
          qtd_transf_arm_co = (if NE_LO < ne \<and> ne < NE_HI then NE_ESP else ne)\<rparr>)"

definition NecessidadeTransferencia_multigerar ::
  "Produto list \<Rightarrow> Venda list \<Rightarrow> NecessidadeTransferencia list" where
  "NecessidadeTransferencia_multigerar produtos vs =
     map necessidade (vendas_produtos_ordem_original produtos vs)"

section \<open>Divergences\<close>

record Divergencia =
  num_linha_venda :: nat
  msg_err :: string

definition MSG_SEM_COD :: string where
  "MSG_SEM_COD = ''C'' @ [CHR 0xF3] @ ''digo de Produto n'' @ [CHR 0xE3] @ ''o encontrado''"

text \<open>Decimal digits of a natural number, most significant first (\<^verbatim>\<open>str\<close> on it).\<close>

fun digitos :: "nat \<Rightarrow> string" where
  "digitos n =
     (if n < 10 then [''0123456789'' ! n]
      else digitos (n div 10) @ [''0123456789'' ! (n mod 10)])"

declare digitos.simps [simp del]

text \<open>
  The format specification \<^verbatim>\<open>05d\<close>: minimum width 5, filled with zeros between the sign
  and the digits; a number that needs more room is printed in full.
\<close>

definition format_05d :: "int \<Rightarrow> string" where
  "format_05d n =
     (if n < 0
      then CHR ''-'' # replicate (4 - length (digitos (nat (- n)))) CHR ''0'' @ digitos (nat (- n))
      else replicate (5 - length (digitos (nat n))) CHR ''0'' @ digitos (nat n))"

definition s_produto :: "Produto list \<Rightarrow> Venda \<Rightarrow> bool" where
  "s_produto produtos v = (cod_produto v \<notin> set (map codigo produtos))"

definition Divergencia_multigerar :: "Produto list \<Rightarrow> Venda list \<Rightarrow> Divergencia list" where
  "Divergencia_multigerar produtos vs =
     map (\<lambda>(i, v).
           \<lparr>num_linha_venda = i + 1,
            msg_err = (if s_produto produtos v
                       then MSG_SEM_COD @ '' '' @ format_05d (cod_produto v)
                       else msg_erro (situacao v))\<rparr>)
       (filter (\<lambda>(i, v). s_produto produtos v \<or> \<not> is_confirmada (situacao v))
          (enumerate 0 vs))"

section \<open>Sales per channel\<close>

record QtdVendasPorCanal =
  canal_vpc :: CanalVenda
  qtd_vendas_vpc :: int

definition QtdVendasPorCanal_multigerar :: "Venda list \<Rightarrow> QtdVendasPorCanal list" where
  "QtdVendasPorCanal_multigerar vs =
     sort_key (\<lambda>vpc. CanalVenda_value (canal_vpc vpc))
       (map (\<lambda>(c, vendas'). \<lparr>canal_vpc = c, qtd_vendas_vpc = sum_list (map qtd vendas')\<rparr>)
          (groupby canal
             (sort_key (\<lambda>v. CanalVenda_value (canal v))
                (filter (\<lambda>v. is_confirmada (situacao v)) vs))))"

section \<open>The batch run\<close>

text \<open>
  The run acts on a world: the regular files by path with their text, and what has been
  printed to standard output and to standard error (one entry per \<^verbatim>\<open>print\<close>). The text
  level of the program is kept abstract in a record of functions: the resolution of a
  relative path into an absolute one, the reading of the two input texts into records
  (\<open>None\<close> where Python raises on a malformed row) and the rendering of the three reports.
\<close>

record Mundo =
  arquivos :: "string \<rightharpoonup> string"
  saida :: "string list"
  erros :: "string list"

record Texto =
  resolve :: "string \<Rightarrow> string"
  ler_produtos :: "string \<Rightarrow> Produto list option"
  ler_vendas :: "string \<Rightarrow> Venda list option"
  texto_necessidades :: "NecessidadeTransferencia list \<Rightarrow> string"
  texto_divergencias :: "Divergencia list \<Rightarrow> string"
  texto_vendas_por_canal :: "QtdVendasPorCanal list \<Rightarrow> string"

record Resultado =
  necessidades :: "NecessidadeTransferencia list"
  divergencias :: "Divergencia list"
  vendas_por_canal :: "QtdVendasPorCanal list"

datatype erro = ValueError | FileNotFoundError

definition MSG_INICIO :: string where
  "MSG_INICIO = ''Estoque Operacional'' @ [CHR 0x0A]
     @ ''Abner Eduardo Ramos Ferreira'' @ [CHR 0x0A]
     @ ''Fernando Martins de Gouv'' @ [CHR 0xEA] @ ''a'' @ [CHR 0x0A]
     @ ''Joilson Briana dos Santos'' @ [CHR 0x0A]
     @ ''Lucas de Abreu Tondin'' @ [CHR 0x0A]"

definition MSG_ARQUIVO_NAO_ENCONTRADO :: string where
  "MSG_ARQUIVO_NAO_ENCONTRADO = ''Arquivo de teste n'' @ [CHR 0xE3] @ ''o encontrado''"

definition CAMINHO_ARQUIVO_PRODUTOS :: string where
  "CAMINHO_ARQUIVO_PRODUTOS = ''produtos.txt''"
definition CAMINHO_ARQUIVO_VENDAS :: string where
  "CAMINHO_ARQUIVO_VENDAS = ''vendas.txt''"
definition CAMINHO_ARQUIVO_TRANSFERENCIAS :: string where
  "CAMINHO_ARQUIVO_TRANSFERENCIAS = ''transfere.txt''"
definition CAMINHO_ARQUIVO_DIVERGENCIAS :: string where
  "CAMINHO_ARQUIVO_DIVERGENCIAS = ''divergencias.txt''"
definition CAMINHO_ARQUIVO_VENDAS_POR_CANAL :: string where
  "CAMINHO_ARQUIVO_VENDAS_POR_CANAL = ''totcanais.txt''"

definition is_file :: "Mundo \<Rightarrow> string \<Rightarrow> bool" where
  "is_file w path = (arquivos w path \<noteq> None)"

definition garantir_arquivos_entrada :: "Texto \<Rightarrow> Mundo \<Rightarrow> bool \<times> Mundo" where
  "garantir_arquivos_entrada t w =
     foldl (\<lambda>(success, w') path.
              (False, w'\<lparr>erros := erros w' @ [MSG_ARQUIVO_NAO_ENCONTRADO @ '': '' @ resolve t path]\<rparr>))
       (True, w)
       (filter (\<lambda>path. \<not> is_file w path) [CAMINHO_ARQUIVO_PRODUTOS, CAMINHO_ARQUIVO_VENDAS])"

definition gerar_resultado :: "Texto \<Rightarrow> Mundo \<Rightarrow> (erro + Resultado option) \<times> Mundo" where
  "gerar_resultado t w =
     (case garantir_arquivos_entrada t w of (ok, w') \<Rightarrow>
        if \<not> ok then (Inr None, w')
        else (case arquivos w' CAMINHO_ARQUIVO_PRODUTOS of
                None \<Rightarrow> (Inl FileNotFoundError, w')
              | Some arq_produtos \<Rightarrow>
            (case arquivos w' CAMINHO_ARQUIVO_VENDAS of
                None \<Rightarrow> (Inl FileNotFoundError, w')
              | Some arq_vendas \<Rightarrow>
            (case ler_produtos t arq_produtos of
                None \<Rightarrow> (Inl ValueError, w')
              | Some produtos \<Rightarrow>
            (case ler_vendas t arq_vendas of
                None \<Rightarrow> (Inl ValueError, w')
              | Some vs \<Rightarrow>
                  (Inr (Some \<lparr>necessidades = NecessidadeTransferencia_multigerar produtos vs,
                               divergencias = Divergencia_multigerar produtos vs,
                               vendas_por_canal = QtdVendasPorCanal_multigerar vs\<rparr>), w'))))))"

definition salvar_necessidades :: "Texto \<Rightarrow> NecessidadeTransferencia list \<Rightarrow> Mundo \<Rightarrow> Mundo" where
  "salvar_necessidades t ns w =
     w\<lparr>arquivos := (arquivos w)(CAMINHO_ARQUIVO_TRANSFERENCIAS \<mapsto> texto_necessidades t ns)\<rparr>"

definition salvar_divergencias :: "Texto \<Rightarrow> Divergencia list \<Rightarrow> Mundo \<Rightarrow> Mundo" where
  "salvar_divergencias t ds w =
     w\<lparr>arquivos := (arquivos w)(CAMINHO_ARQUIVO_DIVERGENCIAS \<mapsto> texto_divergencias t ds)\<rparr>"

definition salvar_vendas_por_canal :: "Texto \<Rightarrow> QtdVendasPorCanal list \<Rightarrow> Mundo \<Rightarrow> Mundo" where
  "salvar_vendas_por_canal t vpcs w =
     w\<lparr>arquivos := (arquivos w)(CAMINHO_ARQUIVO_VENDAS_POR_CANAL \<mapsto> texto_vendas_por_canal t vpcs)\<rparr>"

definition main :: "Texto \<Rightarrow> Mundo \<Rightarrow> (erro + unit) \<times> Mundo" where
  "main t w =
     (case gerar_resultado t (w\<lparr>saida := saida w @ [MSG_INICIO]\<rparr>) of
        (Inl e, w') \<Rightarrow> (Inl e, w')
      | (Inr None, w') \<Rightarrow> (Inr (), w')
      | (Inr (Some resultado), w') \<Rightarrow>
          (Inr (),
           salvar_vendas_por_canal t (vendas_por_canal resultado)
             (salvar_divergencias t (divergencias resultado)
                (salvar_necessidades t (necessidades resultado) w'))))"

section \<open>Auxiliary notions used in the statements\<close>

text \<open>The confirmed sales of a channel, in input order.\<close>

definition do_canal :: "Venda list \<Rightarrow> CanalVenda \<Rightarrow> Venda list" where
  "do_canal vs c = filter (\<lambda>v. is_confirmada (situacao v) \<and> canal v = c) vs"

text \<open>
  The join as the specification words it, for comparison with \<open>vendas_produtos_pares\<close>:
  each confirmed sale goes to the first product of the sequence whose code equals the
  sale's product code, and to no other; a sale without such a product is dropped.
\<close>

definition spec_juncao_primeiro :: "Produto list \<Rightarrow> Venda list \<Rightarrow> VendasPorProduto list" where
  "spec_juncao_primeiro produtos vs =
     concat (map (\<lambda>v.
         case List.find (\<lambda>(i, p). cod_produto v = codigo p) (enumerate 0 produtos) of
           None \<Rightarrow> []
         | Some (i, p) \<Rightarrow> [\<lparr>index = i, produto = p, vendas = [v]\<rparr>])
       (filter (\<lambda>v. is_confirmada (situacao v)) vs))"

text \<open>The confirmed sales whose product code is the code of some product.\<close>

definition vendas_confirmadas_com_produto :: "Produto list \<Rightarrow> Venda list \<Rightarrow> Venda list" where
  "vendas_confirmadas_com_produto produtos vs =
     filter (\<lambda>v. is_confirmada (situacao v) \<and> cod_produto v \<in> set (map codigo produtos)) vs"

text \<open>The number of product entries that carry a given code.\<close>

definition n_produtos_com_codigo :: "Produto list \<Rightarrow> int \<Rightarrow> nat" where
  "n_produtos_com_codigo produtos c = length (filter (\<lambda>p. codigo p = c) produtos)"

text \<open>
  Reading a printed integer back, as \<^verbatim>\<open>int\<close> does on such a text: the value of a digit
  character, of a digit string, and of a digit string with an optional leading minus.
\<close>

definition valor_digito :: "char \<Rightarrow> nat" where
  "valor_digito ch = of_char ch - 48"

definition valor_decimal :: "string \<Rightarrow> nat" where
  "valor_decimal s = foldl (\<lambda>a ch. 10 * a + valor_digito ch) 0 s"

definition ler_inteiro :: "string \<Rightarrow> int" where
  "ler_inteiro s =
     (if s \<noteq> [] \<and> hd s = CHR ''-'' then - int (valor_decimal (tl s))
      else int (valor_decimal s))"

text \<open>The \<open>k\<close> lowest decimal digits of a number, most significant first.\<close>

fun digitos_fixos :: "nat \<Rightarrow> nat \<Rightarrow> string" where
  "digitos_fixos 0 n = []"
| "digitos_fixos (Suc k) n = digitos_fixos k (n div 10) @ [''0123456789'' ! (n mod 10)]"

section \<open>Properties of the transfer needs\<close>

lemmas nt_eval =
  NecessidadeTransferencia_multigerar_def vendas_produtos_ordem_original_def
  vendas_produtos_agrupados_def vendas_produtos_raw_def vendas_produtos_pares_def
  necessidade_def is_confirmada_def NE_LO_def NE_HI_def NE_ESP_def Let_def

text \<open>
  C4. Every emitted record satisfies: stock after sales = CO stock minus total sold (it
  may be negative); raw need = max (minimum CO stock minus stock after sales, 0);
  transfer quantity = 10 when 1 < raw need < 10 and the raw need itself otherwise. On the
  example of the specification (stock 50, minimum 20, one confirmed sale of 40) the raw
  need is 10 and passes through unsmoothed.
\<close>

theorem C4_record_formulas:
  "(\<forall>r \<in> set (NecessidadeTransferencia_multigerar produtos vs).
      qtd_estoque_pos_vendas r = qtd_produto_co r - qtd_vendas r
    \<and> qtd_necessidade r = max (qtd_min_produto_co r - qtd_estoque_pos_vendas r) 0
    \<and> qtd_transf_arm_co r =
        (if 1 < qtd_necessidade r \<and> qtd_necessidade r < 10 then 10 else qtd_necessidade r))
   \<and> NecessidadeTransferencia_multigerar
        [\<lparr>codigo = 1, qtd_estoque = 50, qtd_min_co = 20\<rparr>]
        [\<lparr>cod_produto = 1, qtd = 40, situacao = CONFIRMADA_PGTO_OK, canal = WEBSITE\<rparr>]
      = [\<lparr>cod_produto_nt = 1, qtd_produto_co = 50, qtd_min_produto_co = 20, qtd_vendas = 40,
          qtd_estoque_pos_vendas = 10, qtd_necessidade = 10, qtd_transf_arm_co = 10\<rparr>]"
proof (intro conjI ballI)
  fix r assume "r \<in> set (NecessidadeTransferencia_multigerar produtos vs)"
  then obtain vp where r: "r = necessidade vp"
    by (auto simp: NecessidadeTransferencia_multigerar_def)
  show "qtd_estoque_pos_vendas r = qtd_produto_co r - qtd_vendas r"
    by (simp add: r necessidade_def Let_def)
  show "qtd_necessidade r = max (qtd_min_produto_co r - qtd_estoque_pos_vendas r) 0"
    by (simp add: r necessidade_def Let_def)
  show "qtd_transf_arm_co r =
      (if 1 < qtd_necessidade r \<and> qtd_necessidade r < 10 then 10 else qtd_necessidade r)"
    by (simp add: r necessidade_def Let_def NE_LO_def NE_HI_def NE_ESP_def)
next
  show "NecessidadeTransferencia_multigerar
        [\<lparr>codigo = 1, qtd_estoque = 50, qtd_min_co = 20\<rparr>]
        [\<lparr>cod_produto = 1, qtd = 40, situacao = CONFIRMADA_PGTO_OK, canal = WEBSITE\<rparr>]
      = [\<lparr>cod_produto_nt = 1, qtd_produto_co = 50, qtd_min_produto_co = 20, qtd_vendas = 40,
          qtd_estoque_pos_vendas = 10, qtd_necessidade = 10, qtd_transf_arm_co = 10\<rparr>]"
    by (simp add: nt_eval)
qed

text \<open>The formulas at a sale of 33: stock after sales 17, raw need 3, smoothed to 10.\<close>

theorem C4_record_formulas_witness:
  "\<lparr>cod_produto_nt = 1, qtd_produto_co = 50, qtd_min_produto_co = 20, qtd_vendas = 33,
     qtd_estoque_pos_vendas = 17, qtd_necessidade = 3, qtd_transf_arm_co = 10\<rparr>
     \<in> set (NecessidadeTransferencia_multigerar
         [\<lparr>codigo = 1, qtd_estoque = 50, qtd_min_co = 20\<rparr>]
         [\<lparr>cod_produto = 1, qtd = 33, situacao = CONFIRMADA_PGTO_OK, canal = WEBSITE\<rparr>])
   \<and> (17::int) = 50 - 33 \<and> (3::int) = max (20 - 17) 0
   \<and> (10::int) = (if (1::int) < 3 \<and> (3::int) < 10 then 10 else 3)"
  using C4_record_formulas
    [of "[\<lparr>codigo = 1, qtd_estoque = 50, qtd_min_co = 20\<rparr>]"
        "[\<lparr>cod_produto = 1, qtd = 33, situacao = CONFIRMADA_PGTO_OK, canal = WEBSITE\<rparr>]"]
  by (simp add: nt_eval)

text \<open>
  C5 as stated fails at a raw need of 1: the guard is \<open>NE_LO < ne\<close> with \<open>NE_LO = 1\<close>, so
  a need of exactly 1 is not rounded up to 10. Stock 50, minimum 20, one confirmed sale
  of 31 gives raw need 1 and transfer quantity 1.
\<close>

theorem C5_counterexample:
  "NecessidadeTransferencia_multigerar
     [\<lparr>codigo = 1, qtd_estoque = 50, qtd_min_co = 20\<rparr>]
     [\<lparr>cod_produto = 1, qtd = 31, situacao = CONFIRMADA_PGTO_OK, canal = WEBSITE\<rparr>]
   = [\<lparr>cod_produto_nt = 1, qtd_produto_co = 50, qtd_min_produto_co = 20, qtd_vendas = 31,
       qtd_estoque_pos_vendas = 19, qtd_necessidade = 1, qtd_transf_arm_co = 1\<rparr>]
   \<and> (0::int) < 1 \<and> (1::int) < 10 \<and> (1::int) \<noteq> 10"
  by (simp add: nt_eval)

text \<open>
  C5, amended. For every emitted record: the transfer quantity is 0 exactly when the raw
  need is 0; it is 10 whenever 1 < raw need < 10; and it equals the raw need whenever
  the raw need is at most 1 or at least 10.
\<close>

theorem C5_transfer_quantity:
  "\<forall>r \<in> set (NecessidadeTransferencia_multigerar produtos vs).
      (qtd_transf_arm_co r = 0 \<longleftrightarrow> qtd_necessidade r = 0)
    \<and> (1 < qtd_necessidade r \<and> qtd_necessidade r < 10 \<longrightarrow> qtd_transf_arm_co r = 10)
    \<and> (qtd_necessidade r \<le> 1 \<or> 10 \<le> qtd_necessidade r
          \<longrightarrow> qtd_transf_arm_co r = qtd_necessidade r)"
proof
  fix r assume "r \<in> set (NecessidadeTransferencia_multigerar produtos vs)"
  then obtain vp where r: "r = necessidade vp"
    by (auto simp: NecessidadeTransferencia_multigerar_def)
  define ne where "ne = \<bar>max (qtd_min_co (produto vp) - (qtd_estoque (produto vp)
      - sum_list (map qtd (vendas vp)))) 0\<bar>"
  have n: "qtd_necessidade r = ne"
    by (simp add: r necessidade_def Let_def ne_def)
  have t: "qtd_transf_arm_co r = (if 1 < ne \<and> ne < 10 then 10 else ne)"
    by (simp add: r necessidade_def Let_def ne_def NE_LO_def NE_HI_def NE_ESP_def)
  show "(qtd_transf_arm_co r = 0 \<longleftrightarrow> qtd_necessidade r = 0)
    \<and> (1 < qtd_necessidade r \<and> qtd_necessidade r < 10 \<longrightarrow> qtd_transf_arm_co r = 10)
    \<and> (qtd_necessidade r \<le> 1 \<or> 10 \<le> qtd_necessidade r
          \<longrightarrow> qtd_transf_arm_co r = qtd_necessidade r)"
    unfolding n t by auto
qed

theorem C5_transfer_quantity_witness:
  "\<lparr>cod_produto_nt = 1, qtd_produto_co = 50, qtd_min_produto_co = 20, qtd_vendas = 32,
     qtd_estoque_pos_vendas = 18, qtd_necessidade = 2, qtd_transf_arm_co = 10\<rparr>
     \<in> set (NecessidadeTransferencia_multigerar
         [\<lparr>codigo = 1, qtd_estoque = 50, qtd_min_co = 20\<rparr>]
         [\<lparr>cod_produto = 1, qtd = 32, situacao = CONFIRMADA_PGTO_PENDENTE, canal = APP_IOS\<rparr>])
   \<and> (1::int) < 2 \<and> (2::int) < 10 \<and> \<not> ((2::int) \<le> 1 \<or> (10::int) \<le> 2)"
  using C5_transfer_quantity
    [of "[\<lparr>codigo = 1, qtd_estoque = 50, qtd_min_co = 20\<rparr>]"
        "[\<lparr>cod_produto = 1, qtd = 32, situacao = CONFIRMADA_PGTO_PENDENTE, canal = APP_IOS\<rparr>]"]
  by (simp add: nt_eval)

section \<open>Properties of the divergences\<close>

lemmas div_eval =
  Divergencia_multigerar_def s_produto_def is_confirmada_def MSG_SEM_COD_def

lemma enumerate_strict: "sorted_wrt (\<lambda>a b. fst a < fst b) (enumerate n xs)"
proof -
  have "sorted_wrt (<) (map fst (enumerate n xs))" by simp
  then show ?thesis by (simp only: sorted_wrt_map)
qed

lemma linhas_strict:
  "sorted_wrt (<) (map num_linha_venda (Divergencia_multigerar produtos vs))"
  unfolding Divergencia_multigerar_def
  by (simp add: sorted_wrt_map case_prod_unfold sorted_wrt_filter enumerate_strict)

lemma linhas_membro:
  "n \<in> set (map num_linha_venda (Divergencia_multigerar produtos vs)) \<longleftrightarrow>
     (1 \<le> n \<and> n \<le> length vs
      \<and> (s_produto produtos (vs ! (n - 1)) \<or> \<not> is_confirmada (situacao (vs ! (n - 1)))))"
proof -
  have "n \<in> set (map num_linha_venda (Divergencia_multigerar produtos vs)) \<longleftrightarrow>
     (\<exists>i < length vs. n = Suc i
        \<and> (s_produto produtos (vs ! i) \<or> \<not> is_confirmada (situacao (vs ! i))))"
    unfolding Divergencia_multigerar_def
    by (force simp: in_set_enumerate_eq image_iff)
  also have "\<dots> \<longleftrightarrow> (1 \<le> n \<and> n \<le> length vs
      \<and> (s_produto produtos (vs ! (n - 1)) \<or> \<not> is_confirmada (situacao (vs ! (n - 1)))))"
    by (cases n) auto
  finally show ?thesis .
qed

lemma distinct_ocorrencias:
  "distinct ys \<Longrightarrow> length (filter (\<lambda>m. m = n) ys) = (if n \<in> set ys then 1 else 0)"
  by (induction ys) auto

lemma em_divergencias:
  "d \<in> set (Divergencia_multigerar produtos vs) \<Longrightarrow>
   \<exists>i < length vs. (s_produto produtos (vs ! i) \<or> \<not> is_confirmada (situacao (vs ! i))) \<and>
      d = \<lparr>num_linha_venda = i + 1,
            msg_err = (if s_produto produtos (vs ! i)
                       then MSG_SEM_COD @ '' '' @ format_05d (cod_produto (vs ! i))
                       else msg_erro (situacao (vs ! i)))\<rparr>"
  unfolding Divergencia_multigerar_def
  by (force simp: in_set_enumerate_eq image_iff)

lemma msg_sem_cod_differs: "MSG_SEM_COD @ CHR '' '' # s \<noteq> msg_erro st"
  by (cases st) (simp_all add: MSG_SEM_COD_def)

lemma divergencia_cong:
  "map cod_produto vs = map cod_produto vs' \<Longrightarrow> map situacao vs = map situacao vs' \<Longrightarrow>
   map (\<lambda>(i, v).
           \<lparr>num_linha_venda = i + 1,
            msg_err = (if s_produto produtos v
                       then MSG_SEM_COD @ '' '' @ format_05d (cod_produto v)
                       else msg_erro (situacao v))\<rparr>)
       (filter (\<lambda>(i, v). s_produto produtos v \<or> \<not> is_confirmada (situacao v))
          (enumerate n vs))
 = map (\<lambda>(i, v).
           \<lparr>num_linha_venda = i + 1,
            msg_err = (if s_produto produtos v
                       then MSG_SEM_COD @ '' '' @ format_05d (cod_produto v)
                       else msg_erro (situacao v))\<rparr>)
       (filter (\<lambda>(i, v). s_produto produtos v \<or> \<not> is_confirmada (situacao v))
          (enumerate n vs'))"
proof (induction vs arbitrary: vs' n)
  case Nil then show ?case by simp
next
  case (Cons v vs)
  then obtain v' vs'' where vs': "vs' = v' # vs''" by (cases vs') auto
  with Cons.prems have e: "cod_produto v = cod_produto v'" "situacao v = situacao v'"
    "map cod_produto vs = map cod_produto vs''" "map situacao vs = map situacao vs''" by auto
  have s: "s_produto produtos v = s_produto produtos v'" by (simp add: s_produto_def e)
  show ?case unfolding vs' using Cons.IH[OF e(3,4), of "Suc n"] by (simp add: e s)
qed

text \<open>
  C6. For a sale sequence of length N, the sale at 1-based position n has exactly one
  divergence record when its product code matches no product or its status is not
  confirmed, and none otherwise (so a confirmed, matched sale never has one); the status
  "confirmed, payment pending" counts as confirmed; the records come in strictly
  ascending line-number order.
\<close>

theorem C6_divergence_lines:
  "sorted_wrt (<) (map num_linha_venda (Divergencia_multigerar produtos vs))
   \<and> (\<forall>n. length (filter (\<lambda>d. num_linha_venda d = n) (Divergencia_multigerar produtos vs)) =
        (if 1 \<le> n \<and> n \<le> length vs
            \<and> (cod_produto (vs ! (n - 1)) \<notin> set (map codigo produtos)
                \<or> \<not> is_confirmada (situacao (vs ! (n - 1))))
         then 1 else 0))
   \<and> is_confirmada CONFIRMADA_PGTO_PENDENTE"
proof (intro conjI allI)
  show "sorted_wrt (<) (map num_linha_venda (Divergencia_multigerar produtos vs))"
    by (rule linhas_strict)
next
  fix n
  let ?ls = "map num_linha_venda (Divergencia_multigerar produtos vs)"
  have "distinct ?ls"
    using linhas_strict[of produtos vs] by (simp add: strict_sorted_iff)
  then have "length (filter (\<lambda>m. m = n) ?ls) = (if n \<in> set ?ls then 1 else 0)"
    by (rule distinct_ocorrencias)
  moreover have "length (filter (\<lambda>m. m = n) ?ls)
      = length (filter (\<lambda>d. num_linha_venda d = n) (Divergencia_multigerar produtos vs))"
    by (simp add: filter_map comp_def)
  ultimately show "length (filter (\<lambda>d. num_linha_venda d = n) (Divergencia_multigerar produtos vs)) =
        (if 1 \<le> n \<and> n \<le> length vs
            \<and> (cod_produto (vs ! (n - 1)) \<notin> set (map codigo produtos)
                \<or> \<not> is_confirmada (situacao (vs ! (n - 1))))
         then 1 else 0)"
    unfolding linhas_membro s_produto_def by simp
next
  show "is_confirmada CONFIRMADA_PGTO_PENDENTE" by (simp add: is_confirmada_def)
qed

text \<open>
  Four sales against one product of code 1: confirmed and matched, cancelled, unknown
  product, payment pending. Lines 2 and 3 are flagged once, lines 1 and 4 are not.
\<close>

theorem C6_divergence_lines_witness:
  "map num_linha_venda (Divergencia_multigerar
      [\<lparr>codigo = 1, qtd_estoque = 50, qtd_min_co = 20\<rparr>]
      [\<lparr>cod_produto = 1, qtd = 5, situacao = CONFIRMADA_PGTO_OK, canal = WEBSITE\<rparr>,
       \<lparr>cod_produto = 1, qtd = 6, situacao = CANCELADA, canal = APP_IOS\<rparr>,
       \<lparr>cod_produto = 999, qtd = 7, situacao = CONFIRMADA_PGTO_OK, canal = WEBSITE\<rparr>,
       \<lparr>cod_produto = 1, qtd = 8, situacao = CONFIRMADA_PGTO_PENDENTE, canal = REPR_COMERCIAL\<rparr>])
     = [2, 3]
   \<and> length (filter (\<lambda>d. num_linha_venda d = 2) (Divergencia_multigerar
      [\<lparr>codigo = 1, qtd_estoque = 50, qtd_min_co = 20\<rparr>]
      [\<lparr>cod_produto = 1, qtd = 5, situacao = CONFIRMADA_PGTO_OK, canal = WEBSITE\<rparr>,
       \<lparr>cod_produto = 1, qtd = 6, situacao = CANCELADA, canal = APP_IOS\<rparr>,
       \<lparr>cod_produto = 999, qtd = 7, situacao = CONFIRMADA_PGTO_OK, canal = WEBSITE\<rparr>,
       \<lparr>cod_produto = 1, qtd = 8, situacao = CONFIRMADA_PGTO_PENDENTE, canal = REPR_COMERCIAL\<rparr>]))
     = 1
   \<and> length (filter (\<lambda>d. num_linha_venda d = 4) (Divergencia_multigerar
      [\<lparr>codigo = 1, qtd_estoque = 50, qtd_min_co = 20\<rparr>]
      [\<lparr>cod_produto = 1, qtd = 5, situacao = CONFIRMADA_PGTO_OK, canal = WEBSITE\<rparr>,
       \<lparr>cod_produto = 1, qtd = 6, situacao = CANCELADA, canal = APP_IOS\<rparr>,
       \<lparr>cod_produto = 999, qtd = 7, situacao = CONFIRMADA_PGTO_OK, canal = WEBSITE\<rparr>,
       \<lparr>cod_produto = 1, qtd = 8, situacao = CONFIRMADA_PGTO_PENDENTE, canal = REPR_COMERCIAL\<rparr>]))
     = 0"
  using C6_divergence_lines
    [of "[\<lparr>codigo = 1, qtd_estoque = 50, qtd_min_co = 20\<rparr>]"
      "[\<lparr>cod_produto = 1, qtd = 5, situacao = CONFIRMADA_PGTO_OK, canal = WEBSITE\<rparr>,
       \<lparr>cod_produto = 1, qtd = 6, situacao = CANCELADA, canal = APP_IOS\<rparr>,
       \<lparr>cod_produto = 999, qtd = 7, situacao = CONFIRMADA_PGTO_OK, canal = WEBSITE\<rparr>,
       \<lparr>cod_produto = 1, qtd = 8, situacao = CONFIRMADA_PGTO_PENDENTE, canal = REPR_COMERCIAL\<rparr>]"]
  by (simp add: div_eval)

subsection \<open>The printed product code\<close>

lemma digitos_lt10: "n < 10 \<Longrightarrow> digitos n = [''0123456789'' ! n]"
  by (subst digitos.simps) simp

lemma digitos_ge10:
  "10 \<le> n \<Longrightarrow> digitos n = digitos (n div 10) @ [''0123456789'' ! (n mod 10)]"
  by (subst digitos.simps) simp

lemma replicate_pequeno:
  "replicate 1 x = [x]" "replicate 2 x = [x, x]" "replicate 3 x = [x, x, x]"
  "replicate 4 x = [x, x, x, x]"
  by (simp_all add: eval_nat_numeral)

lemmas format_eval = format_05d_def digitos_ge10 digitos_lt10 replicate_pequeno

lemma um_de_dez:
  "k < 10 \<Longrightarrow> k = 0 \<or> k = 1 \<or> k = 2 \<or> k = 3 \<or> k = 4 \<or> k = 5 \<or> k = 6 \<or> k = 7
    \<or> k = 8 \<or> k = (9::nat)"
  by arith

lemma valor_digito_nth: "k < 10 \<Longrightarrow> valor_digito (''0123456789'' ! k) = k"
  using um_de_dez[of k] by (auto simp: valor_digito_def)

lemma digito_nao_menos: "k < 10 \<Longrightarrow> ''0123456789'' ! k \<noteq> CHR ''-''"
  using um_de_dez[of k] by auto

lemma valor_decimal_snoc:
  "valor_decimal (s @ [ch]) = 10 * valor_decimal s + valor_digito ch"
  by (simp add: valor_decimal_def)

lemma valor_decimal_digitos: "valor_decimal (digitos n) = n"
proof (induction n rule: digitos.induct)
  case (1 n)
  show ?case
  proof (cases "n < 10")
    case True
    then show ?thesis by (simp add: digitos_lt10 valor_decimal_def valor_digito_nth)
  next
    case False
    then have "valor_decimal (digitos (n div 10)) = n div 10" using "1.IH" by simp
    then show ?thesis using False
      by (simp add: digitos_ge10 valor_decimal_snoc valor_digito_nth)
  qed
qed

lemma valor_decimal_zeros: "valor_decimal (replicate k CHR ''0'' @ s) = valor_decimal s"
proof (induction k)
  case 0
  then show ?case by simp
next
  case (Suc k)
  have "valor_decimal (CHR ''0'' # t) = valor_decimal t" for t
    by (simp add: valor_decimal_def valor_digito_def)
  then show ?case using Suc by simp
qed

lemma digitos_nao_vazio: "digitos n \<noteq> []"
  by (cases "n < 10") (simp_all add: digitos_lt10 digitos_ge10)

lemma hd_digitos: "hd (digitos n) \<noteq> CHR ''-''"
proof (induction n rule: digitos.induct)
  case (1 n)
  show ?case
  proof (cases "n < 10")
    case True
    then show ?thesis using digito_nao_menos[of n] by (simp add: digitos_lt10)
  next
    case False
    then show ?thesis using "1.IH" digitos_nao_vazio[of "n div 10"]
      by (simp add: digitos_ge10)
  qed
qed

lemma ler_format_05d: "ler_inteiro (format_05d c) = c"
proof (cases "c < 0")
  case True
  then show ?thesis
    by (simp add: format_05d_def ler_inteiro_def valor_decimal_zeros valor_decimal_digitos)
next
  case False
  let ?z = "replicate (5 - length (digitos (nat c))) CHR ''0''"
  have "hd (?z @ digitos (nat c)) \<noteq> CHR ''-''"
    using hd_digitos[of "nat c"] digitos_nao_vazio[of "nat c"]
    by (cases "5 - length (digitos (nat c))") simp_all
  then show ?thesis using False
    by (simp add: format_05d_def ler_inteiro_def valor_decimal_zeros valor_decimal_digitos)
qed

lemma length_format_05d_ge: "5 \<le> length (format_05d c)"
proof -
  have "k \<le> k - m + m" for k m :: nat by arith
  then show ?thesis by (simp add: format_05d_def)
qed

lemma hd_format_05d_negativo: "c < 0 \<Longrightarrow> hd (format_05d c) = CHR ''-''"
  by (simp add: format_05d_def)

lemma digitos_fixos_zero: "digitos_fixos k 0 = replicate k CHR ''0''"
  by (induction k) (simp_all add: replicate_append_same)

lemma digitos_fixos_digitos:
  "0 < k \<Longrightarrow> n < 10 ^ k \<Longrightarrow>
   replicate (k - length (digitos n)) CHR ''0'' @ digitos n = digitos_fixos k n"
proof (induction k arbitrary: n)
  case 0
  then show ?case by simp
next
  case (Suc k)
  show ?case
  proof (cases "n < 10")
    case True
    then show ?thesis by (simp add: digitos_lt10 digitos_fixos_zero)
  next
    case False
    then have k: "0 < k" using Suc.prems(2) by (cases k) auto
    have "n div 10 < 10 ^ k"
      using Suc.prems(2) by (simp add: less_mult_imp_div_less mult.commute)
    from Suc.IH[OF k this] show ?thesis using False
      by (simp add: digitos_ge10 Suc_diff_le)
  qed
qed

lemma digitos_fixos_5:
  "digitos_fixos 5 n =
    [''0123456789'' ! (n div 10000 mod 10), ''0123456789'' ! (n div 1000 mod 10),
     ''0123456789'' ! (n div 100 mod 10), ''0123456789'' ! (n div 10 mod 10),
     ''0123456789'' ! (n mod 10)]"
proof -
  have 5: "(5::nat) = Suc (Suc (Suc (Suc (Suc 0))))" by simp
  show ?thesis unfolding 5 by (simp add: div_mult2_eq[symmetric])
qed

lemma format_05d_cinco_digitos:
  assumes "0 \<le> c" and "c < 100000"
  shows "format_05d c =
    [''0123456789'' ! (nat c div 10000 mod 10), ''0123456789'' ! (nat c div 1000 mod 10),
     ''0123456789'' ! (nat c div 100 mod 10), ''0123456789'' ! (nat c div 10 mod 10),
     ''0123456789'' ! (nat c mod 10)]"
proof -
  have "nat c < 10 ^ 5" using assms by simp
  from digitos_fixos_digitos[OF _ this]
  have "format_05d c = digitos_fixos 5 (nat c)" using assms by (simp add: format_05d_def)
  then show ?thesis by (simp only: digitos_fixos_5)
qed

text \<open>
  C7 as stated fails for a product code that does not fit five digits: the unmatched code
  123456 is printed with six digits and the unmatched code -7 as a minus sign and four
  digits.
\<close>

theorem C7_counterexample:
  "Divergencia_multigerar
      [\<lparr>codigo = 1, qtd_estoque = 50, qtd_min_co = 20\<rparr>]
      [\<lparr>cod_produto = 123456, qtd = 7, situacao = CANCELADA, canal = WEBSITE\<rparr>,
       \<lparr>cod_produto = - 7, qtd = 1, situacao = NAO_FINALIZADA, canal = APP_IOS\<rparr>]
    = [\<lparr>num_linha_venda = 1, msg_err = MSG_SEM_COD @ '' 123456''\<rparr>,
       \<lparr>num_linha_venda = 2, msg_err = MSG_SEM_COD @ '' -0007''\<rparr>]
   \<and> length (format_05d 123456) = 6
   \<and> format_05d (- 7) = ''-0007''"
  by (simp add: div_eval format_eval)

text \<open>
  C7, amended. A divergence record for a sale whose product code matches no product
  carries the unmatched-product message, whatever the sale's status, and that message is
  never the status error string. The message is the fixed prefix, a space and the
  product code printed in the format \<^verbatim>\<open>05d\<close>: the printed code reads back as the product
  code and has at least five characters; for a code from 0 to 99999 it is exactly the
  five decimal digits of the code, zeros included; a negative code starts with a minus
  sign. The status error string is the message only when the code matches some product,
  and then the status is not confirmed.
\<close>

theorem C7_message_precedence:
  "d \<in> set (Divergencia_multigerar produtos vs) \<Longrightarrow> v = vs ! (num_linha_venda d - 1) \<Longrightarrow>
     (cod_produto v \<notin> set (map codigo produtos) \<longrightarrow>
         msg_err d = MSG_SEM_COD @ '' '' @ format_05d (cod_produto v)
         \<and> msg_err d \<noteq> msg_erro (situacao v)
         \<and> ler_inteiro (format_05d (cod_produto v)) = cod_produto v
         \<and> 5 \<le> length (format_05d (cod_produto v))
         \<and> (cod_produto v < 0 \<longrightarrow> hd (format_05d (cod_produto v)) = CHR ''-'')
         \<and> (0 \<le> cod_produto v \<and> cod_produto v < 100000 \<longrightarrow>
              format_05d (cod_produto v) =
                [''0123456789'' ! (nat (cod_produto v) div 10000 mod 10),
                 ''0123456789'' ! (nat (cod_produto v) div 1000 mod 10),
                 ''0123456789'' ! (nat (cod_produto v) div 100 mod 10),
                 ''0123456789'' ! (nat (cod_produto v) div 10 mod 10),
                 ''0123456789'' ! (nat (cod_produto v) mod 10)]))
   \<and> (cod_produto v \<in> set (map codigo produtos) \<longrightarrow>
         msg_err d = msg_erro (situacao v) \<and> \<not> is_confirmada (situacao v))"
proof -
  assume d: "d \<in> set (Divergencia_multigerar produtos vs)"
    and v: "v = vs ! (num_linha_venda d - 1)"
  from em_divergencias[OF d] obtain i where i: "i < length vs"
     "s_produto produtos (vs ! i) \<or> \<not> is_confirmada (situacao (vs ! i))"
     "d = \<lparr>num_linha_venda = i + 1,
            msg_err = (if s_produto produtos (vs ! i)
                       then MSG_SEM_COD @ '' '' @ format_05d (cod_produto (vs ! i))
                       else msg_erro (situacao (vs ! i)))\<rparr>" by blast
  have vi: "v = vs ! i" using v i(3) by simp
  have s: "s_produto produtos v = (cod_produto v \<notin> set (map codigo produtos))"
    by (simp add: s_produto_def)
  have m: "msg_err d = (if s_produto produtos v
                       then MSG_SEM_COD @ '' '' @ format_05d (cod_produto v)
                       else msg_erro (situacao v))"
    unfolding vi i(3) by simp
  have f: "s_produto produtos v \<or> \<not> is_confirmada (situacao v)"
    using i(2) unfolding vi .
  have A: "cod_produto v \<notin> set (map codigo produtos) \<Longrightarrow>
      msg_err d = MSG_SEM_COD @ '' '' @ format_05d (cod_produto v)
      \<and> msg_err d \<noteq> msg_erro (situacao v)"
    using m msg_sem_cod_differs[of "format_05d (cod_produto v)" "situacao v"]
    unfolding s by simp
  have C: "cod_produto v \<in> set (map codigo produtos) \<Longrightarrow>
      msg_err d = msg_erro (situacao v) \<and> \<not> is_confirmada (situacao v)"
    using m f unfolding s by simp
  show ?thesis
  proof (intro conjI impI)
    assume u: "cod_produto v \<notin> set (map codigo produtos)"
    show "msg_err d = MSG_SEM_COD @ '' '' @ format_05d (cod_produto v)"
      using A[OF u] by (rule conjunct1)
    show "msg_err d \<noteq> msg_erro (situacao v)"
      using A[OF u] by (rule conjunct2)
    show "ler_inteiro (format_05d (cod_produto v)) = cod_produto v"
      by (rule ler_format_05d)
    show "5 \<le> length (format_05d (cod_produto v))"
      by (rule length_format_05d_ge)
  next
    assume "cod_produto v < 0"
    then show "hd (format_05d (cod_produto v)) = CHR ''-''"
      by (rule hd_format_05d_negativo)
  next
    assume "0 \<le> cod_produto v \<and> cod_produto v < 100000"
    then show "format_05d (cod_produto v) =
                [''0123456789'' ! (nat (cod_produto v) div 10000 mod 10),
                 ''0123456789'' ! (nat (cod_produto v) div 1000 mod 10),
                 ''0123456789'' ! (nat (cod_produto v) div 100 mod 10),
                 ''0123456789'' ! (nat (cod_produto v) div 10 mod 10),
                 ''0123456789'' ! (nat (cod_produto v) mod 10)]"
      by (intro format_05d_cinco_digitos) simp_all
  next
    assume mt: "cod_produto v \<in> set (map codigo produtos)"
    show "msg_err d = msg_erro (situacao v)" using C[OF mt] by (rule conjunct1)
    show "\<not> is_confirmada (situacao v)" using C[OF mt] by (rule conjunct2)
  qed
qed

text \<open>A cancelled sale of the unknown product 999: the message names the code 00999.\<close>

theorem C7_message_precedence_witness:
  "\<lparr>num_linha_venda = 1, msg_err = MSG_SEM_COD @ '' 00999''\<rparr>
     \<in> set (Divergencia_multigerar
         [\<lparr>codigo = 1, qtd_estoque = 50, qtd_min_co = 20\<rparr>]
         [\<lparr>cod_produto = 999, qtd = 7, situacao = CANCELADA, canal = WEBSITE\<rparr>])
   \<and> (999::int) \<notin> set (map codigo [\<lparr>codigo = 1, qtd_estoque = 50, qtd_min_co = 20\<rparr>])
   \<and> MSG_SEM_COD @ '' 00999'' \<noteq> msg_erro CANCELADA
   \<and> format_05d 999 = ''00999''
   \<and> ler_inteiro ''00999'' = 999"
proof -
  let ?d = "\<lparr>num_linha_venda = 1, msg_err = MSG_SEM_COD @ '' 00999''\<rparr>"
  let ?P = "[\<lparr>codigo = 1, qtd_estoque = 50, qtd_min_co = 20\<rparr>]"
  let ?v = "\<lparr>cod_produto = 999, qtd = 7, situacao = CANCELADA, canal = WEBSITE\<rparr>"
  have m: "?d \<in> set (Divergencia_multigerar ?P [?v])"
    by (simp add: div_eval format_eval)
  have e: "?v = [?v] ! (num_linha_venda ?d - 1)" by simp
  have u: "cod_produto ?v \<notin> set (map codigo ?P)" by simp
  have r: "0 \<le> cod_produto ?v \<and> cod_produto ?v < 100000" by simp
  note t = C7_message_precedence[OF m e, THEN conjunct1, rule_format, OF u]
  have 1: "msg_err ?d \<noteq> msg_erro (situacao ?v)"
    using t by (elim conjE)
  have 2: "ler_inteiro (format_05d (cod_produto ?v)) = cod_produto ?v"
    using t by (elim conjE)
  have 3: "format_05d (cod_produto ?v) = ''00999''"
    using t r by (elim conjE) simp
  show ?thesis using m u 1 2 3 by simp
qed

text \<open>
  C10. Two sale sequences that agree position by position on product code and status
  (hence have the same length), whatever their quantities and channels, give the same
  divergences against the same products.
\<close>

theorem C10_divergence_independent:
  "map cod_produto vs = map cod_produto vs' \<Longrightarrow> map situacao vs = map situacao vs' \<Longrightarrow>
   Divergencia_multigerar produtos vs = Divergencia_multigerar produtos vs'"
  unfolding Divergencia_multigerar_def by (rule divergencia_cong)

theorem C10_divergence_independent_witness:
  "map cod_produto
      [\<lparr>cod_produto = 1, qtd = 5, situacao = CANCELADA, canal = WEBSITE\<rparr>,
       \<lparr>cod_produto = 2, qtd = 6, situacao = CONFIRMADA_PGTO_OK, canal = APP_IOS\<rparr>]
   = map cod_produto
      [\<lparr>cod_produto = 1, qtd = 70, situacao = CANCELADA, canal = APP_ANDROID\<rparr>,
       \<lparr>cod_produto = 2, qtd = - 3, situacao = CONFIRMADA_PGTO_OK, canal = REPR_COMERCIAL\<rparr>]
   \<and> map situacao
      [\<lparr>cod_produto = 1, qtd = 5, situacao = CANCELADA, canal = WEBSITE\<rparr>,
       \<lparr>cod_produto = 2, qtd = 6, situacao = CONFIRMADA_PGTO_OK, canal = APP_IOS\<rparr>]
   = map situacao
      [\<lparr>cod_produto = 1, qtd = 70, situacao = CANCELADA, canal = APP_ANDROID\<rparr>,
       \<lparr>cod_produto = 2, qtd = - 3, situacao = CONFIRMADA_PGTO_OK, canal = REPR_COMERCIAL\<rparr>]
   \<and> Divergencia_multigerar [\<lparr>codigo = 1, qtd_estoque = 50, qtd_min_co = 20\<rparr>]
      [\<lparr>cod_produto = 1, qtd = 5, situacao = CANCELADA, canal = WEBSITE\<rparr>,
       \<lparr>cod_produto = 2, qtd = 6, situacao = CONFIRMADA_PGTO_OK, canal = APP_IOS\<rparr>]
   = Divergencia_multigerar [\<lparr>codigo = 1, qtd_estoque = 50, qtd_min_co = 20\<rparr>]
      [\<lparr>cod_produto = 1, qtd = 70, situacao = CANCELADA, canal = APP_ANDROID\<rparr>,
       \<lparr>cod_produto = 2, qtd = - 3, situacao = CONFIRMADA_PGTO_OK, canal = REPR_COMERCIAL\<rparr>]"
  using C10_divergence_independent
    [of "[\<lparr>cod_produto = 1, qtd = 5, situacao = CANCELADA, canal = WEBSITE\<rparr>,
          \<lparr>cod_produto = 2, qtd = 6, situacao = CONFIRMADA_PGTO_OK, canal = APP_IOS\<rparr>]"
        "[\<lparr>cod_produto = 1, qtd = 70, situacao = CANCELADA, canal = APP_ANDROID\<rparr>,
          \<lparr>cod_produto = 2, qtd = - 3, situacao = CONFIRMADA_PGTO_OK, canal = REPR_COMERCIAL\<rparr>]"
        "[\<lparr>codigo = 1, qtd_estoque = 50, qtd_min_co = 20\<rparr>]"]
  by simp


section \<open>Properties of the batch run\<close>

lemmas caminhos =
  CAMINHO_ARQUIVO_PRODUTOS_def CAMINHO_ARQUIVO_VENDAS_def CAMINHO_ARQUIVO_TRANSFERENCIAS_def
  CAMINHO_ARQUIVO_DIVERGENCIAS_def CAMINHO_ARQUIVO_VENDAS_POR_CANAL_def

lemma garantir_falta:
  "arquivos w CAMINHO_ARQUIVO_PRODUTOS = None \<or> arquivos w CAMINHO_ARQUIVO_VENDAS = None \<Longrightarrow>
   fst (garantir_arquivos_entrada t w) = False \<and>
   arquivos (snd (garantir_arquivos_entrada t w)) = arquivos w \<and>
   saida (snd (garantir_arquivos_entrada t w)) = saida w \<and>
   erros (snd (garantir_arquivos_entrada t w)) = erros w @
     map (\<lambda>path. MSG_ARQUIVO_NAO_ENCONTRADO @ '': '' @ resolve t path)
       (filter (\<lambda>path. arquivos w path = None) [CAMINHO_ARQUIVO_PRODUTOS, CAMINHO_ARQUIVO_VENDAS])"
  by (auto simp: garantir_arquivos_entrada_def is_file_def)

lemma garantir_presentes:
  "arquivos w CAMINHO_ARQUIVO_PRODUTOS = Some a \<Longrightarrow> arquivos w CAMINHO_ARQUIVO_VENDAS = Some b \<Longrightarrow>
   garantir_arquivos_entrada t w = (True, w)"
  by (simp add: garantir_arquivos_entrada_def is_file_def)

text \<open>
  With both inputs present and readable the run does write the three reports, so the
  absence of writes in C9 comes from the guard and not from the model.
\<close>

lemma main_escreve:
  assumes "arquivos w CAMINHO_ARQUIVO_PRODUTOS = Some a"
    and "arquivos w CAMINHO_ARQUIVO_VENDAS = Some b"
    and "ler_produtos t a = Some produtos" and "ler_vendas t b = Some vs"
  shows "fst (main t w) = Inr ()"
    and "arquivos (snd (main t w)) CAMINHO_ARQUIVO_TRANSFERENCIAS
          = Some (texto_necessidades t (NecessidadeTransferencia_multigerar produtos vs))"
    and "arquivos (snd (main t w)) CAMINHO_ARQUIVO_DIVERGENCIAS
          = Some (texto_divergencias t (Divergencia_multigerar produtos vs))"
    and "arquivos (snd (main t w)) CAMINHO_ARQUIVO_VENDAS_POR_CANAL
          = Some (texto_vendas_por_canal t (QtdVendasPorCanal_multigerar vs))"
proof -
  let ?w1 = "w\<lparr>saida := saida w @ [MSG_INICIO]\<rparr>"
  have g: "garantir_arquivos_entrada t ?w1 = (True, ?w1)"
    using assms(1,2) by (intro garantir_presentes[of _ a b]) simp_all
  have r: "gerar_resultado t ?w1 =
      (Inr (Some \<lparr>necessidades = NecessidadeTransferencia_multigerar produtos vs,
                   divergencias = Divergencia_multigerar produtos vs,
                   vendas_por_canal = QtdVendasPorCanal_multigerar vs\<rparr>), ?w1)"
    using assms by (simp add: gerar_resultado_def g)
  show "fst (main t w) = Inr ()" by (simp add: main_def r)
  show "arquivos (snd (main t w)) CAMINHO_ARQUIVO_TRANSFERENCIAS
          = Some (texto_necessidades t (NecessidadeTransferencia_multigerar produtos vs))"
    by (simp add: main_def r salvar_necessidades_def salvar_divergencias_def
        salvar_vendas_por_canal_def caminhos)
  show "arquivos (snd (main t w)) CAMINHO_ARQUIVO_DIVERGENCIAS
          = Some (texto_divergencias t (Divergencia_multigerar produtos vs))"
    by (simp add: main_def r salvar_necessidades_def salvar_divergencias_def
        salvar_vendas_por_canal_def caminhos)
  show "arquivos (snd (main t w)) CAMINHO_ARQUIVO_VENDAS_POR_CANAL
          = Some (texto_vendas_por_canal t (QtdVendasPorCanal_multigerar vs))"
    by (simp add: main_def r salvar_necessidades_def salvar_divergencias_def
        salvar_vendas_por_canal_def caminhos)
qed

text \<open>
  C9. If the products file or the sales file is absent, the run returns normally, has
  printed one "file not found" line on standard error for each absent input, has computed
  no result, and leaves every file as it was: none of the three reports is written.
\<close>

theorem C9_missing_input:
  "arquivos w CAMINHO_ARQUIVO_PRODUTOS = None \<or> arquivos w CAMINHO_ARQUIVO_VENDAS = None \<Longrightarrow>
   fst (main t w) = Inr ()
   \<and> fst (gerar_resultado t (w\<lparr>saida := saida w @ [MSG_INICIO]\<rparr>)) = Inr None
   \<and> arquivos (snd (main t w)) = arquivos w
   \<and> erros (snd (main t w)) = erros w @
       map (\<lambda>path. MSG_ARQUIVO_NAO_ENCONTRADO @ '': '' @ resolve t path)
         (filter (\<lambda>path. arquivos w path = None)
            [CAMINHO_ARQUIVO_PRODUTOS, CAMINHO_ARQUIVO_VENDAS])
   \<and> erros (snd (main t w)) \<noteq> erros w"
proof -
  assume a: "arquivos w CAMINHO_ARQUIVO_PRODUTOS = None \<or> arquivos w CAMINHO_ARQUIVO_VENDAS = None"
  let ?w1 = "w\<lparr>saida := saida w @ [MSG_INICIO]\<rparr>"
  have a1: "arquivos ?w1 CAMINHO_ARQUIVO_PRODUTOS = None
      \<or> arquivos ?w1 CAMINHO_ARQUIVO_VENDAS = None"
    using a by simp
  note g1 = garantir_falta[OF a1, of t]
  obtain ok w' where ow: "garantir_arquivos_entrada t ?w1 = (ok, w')"
    by (cases "garantir_arquivos_entrada t ?w1")
  have gr: "gerar_resultado t ?w1 = (Inr None, w')"
    using g1 ow by (simp add: gerar_resultado_def)
  have m: "main t w = (Inr (), w')" by (simp add: main_def gr)
  show ?thesis using g1 ow a by (auto simp: m gr)
qed

text \<open>Only the products file exists: one line on standard error, no file touched.\<close>

theorem C9_missing_input_witness:
  "arquivos \<lparr>arquivos = [''produtos.txt'' \<mapsto> ''1;50;20''], saida = [], erros = []\<rparr>
      CAMINHO_ARQUIVO_VENDAS = None
   \<and> arquivos (snd (main
        \<lparr>resolve = (\<lambda>p. ''/tmp/'' @ p), ler_produtos = (\<lambda>s. Some []), ler_vendas = (\<lambda>s. Some []),
         texto_necessidades = (\<lambda>ns. ''''), texto_divergencias = (\<lambda>ds. ''''),
         texto_vendas_por_canal = (\<lambda>cs. '''')\<rparr>
        \<lparr>arquivos = [''produtos.txt'' \<mapsto> ''1;50;20''], saida = [], erros = []\<rparr>))
     = [''produtos.txt'' \<mapsto> ''1;50;20'']
   \<and> erros (snd (main
        \<lparr>resolve = (\<lambda>p. ''/tmp/'' @ p), ler_produtos = (\<lambda>s. Some []), ler_vendas = (\<lambda>s. Some []),
         texto_necessidades = (\<lambda>ns. ''''), texto_divergencias = (\<lambda>ds. ''''),
         texto_vendas_por_canal = (\<lambda>cs. '''')\<rparr>
        \<lparr>arquivos = [''produtos.txt'' \<mapsto> ''1;50;20''], saida = [], erros = []\<rparr>))
     = [MSG_ARQUIVO_NAO_ENCONTRADO @ '': /tmp/vendas.txt'']"
  using C9_missing_input
    [of "\<lparr>arquivos = [''produtos.txt'' \<mapsto> ''1;50;20''], saida = [], erros = []\<rparr>"
        "\<lparr>resolve = (\<lambda>p. ''/tmp/'' @ p), ler_produtos = (\<lambda>s. Some []), ler_vendas = (\<lambda>s. Some []),
         texto_necessidades = (\<lambda>ns. ''''), texto_divergencias = (\<lambda>ds. ''''),
         texto_vendas_por_canal = (\<lambda>cs. '''')\<rparr>"]
  by (simp add: caminhos)


section \<open>Properties of groupby and of the sales per channel\<close>

lemma groupby_bloco:
  assumes "\<forall>a \<in> set as. g a = k" and "\<forall>b \<in> set bs. g b \<noteq> k"
  shows "groupby g (as @ bs) = (if as = [] then groupby g bs else (k, as) # groupby g bs)"
proof (cases as)
  case Nil
  then show ?thesis by simp
next
  case (Cons a as')
  have k: "g a = k" and as': "\<forall>y \<in> set as'. g y = k" using assms(1) Cons by auto
  have t: "takeWhile (\<lambda>y. g y = k) bs = []" using assms(2) by (cases bs) auto
  have d: "dropWhile (\<lambda>y. g y = k) bs = bs" using assms(2) by (cases bs) auto
  have "takeWhile (\<lambda>y. g y = k) (as' @ bs) = as'" using as' t by simp
  moreover have "dropWhile (\<lambda>y. g y = k) (as' @ bs) = bs" using as' d by simp
  ultimately show ?thesis using Cons k by simp
qed

lemma concat_groupby: "concat (map snd (groupby g xs)) = xs"
  by (induction g xs rule: groupby.induct) simp_all

lemma CanalVenda_value_inj: "CanalVenda_value c = CanalVenda_value c' \<longleftrightarrow> c = c'"
  by (cases c; cases c') simp_all

lemma ordenado_por_canal:
  "sorted (map (\<lambda>v. CanalVenda_value (canal v)) ys) \<Longrightarrow>
   ys = filter (\<lambda>v. canal v = REPR_COMERCIAL) ys @ filter (\<lambda>v. canal v = WEBSITE) ys
      @ filter (\<lambda>v. canal v = APP_ANDROID) ys @ filter (\<lambda>v. canal v = APP_IOS) ys"
proof (induction ys)
  case Nil
  then show ?case by simp
next
  case (Cons y ys)
  then have ih: "ys = filter (\<lambda>v. canal v = REPR_COMERCIAL) ys @ filter (\<lambda>v. canal v = WEBSITE) ys
      @ filter (\<lambda>v. canal v = APP_ANDROID) ys @ filter (\<lambda>v. canal v = APP_IOS) ys"
    and le: "\<forall>z \<in> set ys. CanalVenda_value (canal y) \<le> CanalVenda_value (canal z)"
    by simp_all
  show ?case
  proof (cases "canal y")
    case REPR_COMERCIAL
    then show ?thesis using ih by simp
  next
    case WEBSITE
    then have "filter (\<lambda>v. canal v = REPR_COMERCIAL) ys = []"
      using le by (auto simp: filter_empty_conv)
    then show ?thesis using ih WEBSITE by simp
  next
    case APP_ANDROID
    then have "filter (\<lambda>v. canal v = REPR_COMERCIAL) ys = []"
      "filter (\<lambda>v. canal v = WEBSITE) ys = []"
      using le by (auto simp: filter_empty_conv)
    then show ?thesis using ih APP_ANDROID by simp
  next
    case APP_IOS
    then have "filter (\<lambda>v. canal v = REPR_COMERCIAL) ys = []"
      "filter (\<lambda>v. canal v = WEBSITE) ys = []" "filter (\<lambda>v. canal v = APP_ANDROID) ys = []"
      using le by (auto simp: filter_empty_conv)
    then show ?thesis using ih APP_IOS by simp
  qed
qed

lemma filtro_canal_estavel:
  "filter (\<lambda>v. canal v = c) (sort_key (\<lambda>v. CanalVenda_value (canal v)) ys)
     = filter (\<lambda>v. canal v = c) ys"
  using sort_key_stable[of "\<lambda>v. CanalVenda_value (canal v)" "CanalVenda_value c" ys]
  by (simp add: CanalVenda_value_inj)

lemma confirmadas_ordenadas:
  "sort_key (\<lambda>v. CanalVenda_value (canal v)) (filter (\<lambda>v. is_confirmada (situacao v)) vs)
     = do_canal vs REPR_COMERCIAL @ do_canal vs WEBSITE
       @ do_canal vs APP_ANDROID @ do_canal vs APP_IOS"
proof -
  let ?S = "sort_key (\<lambda>v. CanalVenda_value (canal v)) (filter (\<lambda>v. is_confirmada (situacao v)) vs)"
  have f: "filter (\<lambda>v. canal v = c) ?S = do_canal vs c" for c
    by (simp add: filtro_canal_estavel do_canal_def conj_commute)
  have "sorted (map (\<lambda>v. CanalVenda_value (canal v)) ?S)" by simp
  from ordenado_por_canal[OF this] show ?thesis unfolding f .
qed

lemma canal_do_canal: "v \<in> set (do_canal vs c) \<Longrightarrow> canal v = c"
  by (simp add: do_canal_def)

lemma grupos_por_canal:
  "groupby canal (do_canal vs REPR_COMERCIAL @ do_canal vs WEBSITE
       @ do_canal vs APP_ANDROID @ do_canal vs APP_IOS)
   = map (\<lambda>c. (c, do_canal vs c))
       (filter (\<lambda>c. do_canal vs c \<noteq> []) [REPR_COMERCIAL, WEBSITE, APP_ANDROID, APP_IOS])"
proof -
  have own: "\<forall>a \<in> set (do_canal vs c). canal a = c" for c
    by (simp add: do_canal_def)
  have other: "c' \<noteq> c \<Longrightarrow> \<forall>b \<in> set (do_canal vs c'). canal b \<noteq> c" for c c'
    by (simp add: do_canal_def)
  have 4: "groupby canal (do_canal vs APP_IOS)
      = map (\<lambda>c. (c, do_canal vs c)) (filter (\<lambda>c. do_canal vs c \<noteq> []) [APP_IOS])"
    using groupby_bloco[OF own, of "[]" APP_IOS] by simp
  have 3: "groupby canal (do_canal vs APP_ANDROID @ do_canal vs APP_IOS)
      = map (\<lambda>c. (c, do_canal vs c)) (filter (\<lambda>c. do_canal vs c \<noteq> []) [APP_ANDROID, APP_IOS])"
    using groupby_bloco[OF own, of "do_canal vs APP_IOS" APP_ANDROID] other[of APP_IOS APP_ANDROID] 4
    by simp
  have r2: "\<forall>b \<in> set (do_canal vs APP_ANDROID @ do_canal vs APP_IOS). canal b \<noteq> WEBSITE"
    using other[of APP_ANDROID WEBSITE] other[of APP_IOS WEBSITE] by auto
  have 2: "groupby canal (do_canal vs WEBSITE @ do_canal vs APP_ANDROID @ do_canal vs APP_IOS)
      = map (\<lambda>c. (c, do_canal vs c))
          (filter (\<lambda>c. do_canal vs c \<noteq> []) [WEBSITE, APP_ANDROID, APP_IOS])"
    using groupby_bloco[OF own r2] 3 by simp
  have r1: "\<forall>b \<in> set (do_canal vs WEBSITE @ do_canal vs APP_ANDROID @ do_canal vs APP_IOS).
      canal b \<noteq> REPR_COMERCIAL"
    using other[of WEBSITE REPR_COMERCIAL] other[of APP_ANDROID REPR_COMERCIAL]
      other[of APP_IOS REPR_COMERCIAL] by auto
  show ?thesis
    using groupby_bloco[OF own r1] 2 by simp
qed

lemma canais_em_ordem:
  "sorted (map CanalVenda_value (filter P [REPR_COMERCIAL, WEBSITE, APP_ANDROID, APP_IOS]))"
  by simp

text \<open>
  C8. The channel aggregator emits, in ascending order of the channel's integer value,
  one record for each channel that has at least one confirmed sale and none for the
  other channels; the record's total is the sum of the quantities of the confirmed sales
  of its channel.
\<close>

theorem C8_channel_totals:
  "QtdVendasPorCanal_multigerar vs =
     map (\<lambda>c. \<lparr>canal_vpc = c,
                qtd_vendas_vpc = sum_list (map qtd
                  (filter (\<lambda>v. is_confirmada (situacao v) \<and> canal v = c) vs))\<rparr>)
       (filter (\<lambda>c. \<exists>v \<in> set vs. is_confirmada (situacao v) \<and> canal v = c)
          [REPR_COMERCIAL, WEBSITE, APP_ANDROID, APP_IOS])
   \<and> sorted_wrt (<) (map CanalVenda_value [REPR_COMERCIAL, WEBSITE, APP_ANDROID, APP_IOS])"
proof
  let ?cs = "filter (\<lambda>c. do_canal vs c \<noteq> []) [REPR_COMERCIAL, WEBSITE, APP_ANDROID, APP_IOS]"
  let ?mk = "\<lambda>c. \<lparr>canal_vpc = c, qtd_vendas_vpc = sum_list (map qtd (do_canal vs c))\<rparr>"
  have ne: "(do_canal vs c \<noteq> []) = (\<exists>v \<in> set vs. is_confirmada (situacao v) \<and> canal v = c)" for c
    by (auto simp: do_canal_def filter_empty_conv)
  have "QtdVendasPorCanal_multigerar vs
      = sort_key (\<lambda>vpc. CanalVenda_value (canal_vpc vpc)) (map ?mk ?cs)"
    unfolding QtdVendasPorCanal_multigerar_def confirmadas_ordenadas grupos_por_canal
    by (simp add: comp_def)
  also have "\<dots> = map ?mk ?cs"
  proof (rule sort_key_id_if_sorted)
    have "map (\<lambda>vpc. CanalVenda_value (canal_vpc vpc)) (map ?mk ?cs) = map CanalVenda_value ?cs"
      by (simp add: comp_def)
    then show "sorted (map (\<lambda>vpc. CanalVenda_value (canal_vpc vpc)) (map ?mk ?cs))"
      using canais_em_ordem[of "\<lambda>c. do_canal vs c \<noteq> []"] by simp
  qed
  finally show "QtdVendasPorCanal_multigerar vs =
     map (\<lambda>c. \<lparr>canal_vpc = c,
                qtd_vendas_vpc = sum_list (map qtd
                  (filter (\<lambda>v. is_confirmada (situacao v) \<and> canal v = c) vs))\<rparr>)
       (filter (\<lambda>c. \<exists>v \<in> set vs. is_confirmada (situacao v) \<and> canal v = c)
          [REPR_COMERCIAL, WEBSITE, APP_ANDROID, APP_IOS])"
    unfolding ne by (simp add: do_canal_def)
next
  show "sorted_wrt (<) (map CanalVenda_value [REPR_COMERCIAL, WEBSITE, APP_ANDROID, APP_IOS])"
    by simp
qed

text \<open>
  Website and representatives sell, in that input order; a cancelled Android sale is
  left out. The output has representatives (1) before website (2) and no other channel.
\<close>

theorem C8_channel_totals_witness:
  "QtdVendasPorCanal_multigerar
     [\<lparr>cod_produto = 1, qtd = 5, situacao = CONFIRMADA_PGTO_OK, canal = WEBSITE\<rparr>,
      \<lparr>cod_produto = 2, qtd = 6, situacao = CONFIRMADA_PGTO_PENDENTE, canal = REPR_COMERCIAL\<rparr>,
      \<lparr>cod_produto = 1, qtd = 7, situacao = CANCELADA, canal = APP_ANDROID\<rparr>,
      \<lparr>cod_produto = 9, qtd = 8, situacao = CONFIRMADA_PGTO_OK, canal = WEBSITE\<rparr>]
   = [\<lparr>canal_vpc = REPR_COMERCIAL, qtd_vendas_vpc = 6\<rparr>,
      \<lparr>canal_vpc = WEBSITE, qtd_vendas_vpc = 13\<rparr>]"
  using C8_channel_totals
    [of "[\<lparr>cod_produto = 1, qtd = 5, situacao = CONFIRMADA_PGTO_OK, canal = WEBSITE\<rparr>,
      \<lparr>cod_produto = 2, qtd = 6, situacao = CONFIRMADA_PGTO_PENDENTE, canal = REPR_COMERCIAL\<rparr>,
      \<lparr>cod_produto = 1, qtd = 7, situacao = CANCELADA, canal = APP_ANDROID\<rparr>,
      \<lparr>cod_produto = 9, qtd = 8, situacao = CONFIRMADA_PGTO_OK, canal = WEBSITE\<rparr>]"]
  by (simp add: is_confirmada_def)


section \<open>Properties of the join and of the totals\<close>

lemma sum_list_sort_key: "sum_list (map f (sort_key k xs)) = sum_list (map f xs)"
  for f :: "'a \<Rightarrow> int"
proof -
  have "sum_list (map f (sort_key k xs)) = sum_mset (image_mset f (mset (sort_key k xs)))"
    by (simp flip: sum_mset_sum_list)
  also have "\<dots> = sum_list (map f xs)"
    by (simp flip: sum_mset_sum_list)
  finally show ?thesis .
qed

lemma sum_list_concat_vendas:
  "sum_list (map qtd (concat (map vendas vps)))
     = sum_list (map (\<lambda>vp. sum_list (map qtd (vendas vp))) vps)"
  by (induction vps) simp_all

lemma sum_list_groupby:
  "sum_list (map (\<lambda>(k, grp). sum_list (map h grp)) (groupby g xs)) = sum_list (map h xs)"
  for h :: "'a \<Rightarrow> int"
proof -
  have "sum_list (map h (concat (map snd (groupby g xs))))
      = sum_list (map (\<lambda>(k, grp). sum_list (map h grp)) (groupby g xs))"
    by (induction g xs rule: groupby.induct) simp_all
  then show ?thesis by (simp add: concat_groupby)
qed

lemma length_filter_enumerate:
  "length (filter (\<lambda>(i, p). Q p) (enumerate n ps)) = length (filter Q ps)"
  by (induction ps arbitrary: n) simp_all

lemma sum_pares:
  "sum_list (map (\<lambda>vp. sum_list (map qtd (vendas vp))) (vendas_produtos_pares produtos vs))
     = sum_list (map (\<lambda>v. qtd v * int (n_produtos_com_codigo produtos (cod_produto v)))
         (filter (\<lambda>v. is_confirmada (situacao v)) vs))"
proof (induction vs)
  case Nil
  then show ?case by (simp add: vendas_produtos_pares_def)
next
  case (Cons v vs)
  have step: "vendas_produtos_pares produtos (v # vs) =
      map (\<lambda>(i, p). \<lparr>index = i, produto = p, vendas = [v]\<rparr>)
        (filter (\<lambda>(i, p). cod_produto v = codigo p \<and> is_confirmada (situacao v))
           (enumerate 0 produtos))
      @ vendas_produtos_pares produtos vs"
    by (simp add: vendas_produtos_pares_def)
  have "sum_list (map (\<lambda>vp. sum_list (map qtd (vendas vp)))
        (map (\<lambda>(i, p). \<lparr>index = i, produto = p, vendas = [v]\<rparr>)
          (filter (\<lambda>(i, p). cod_produto v = codigo p \<and> is_confirmada (situacao v))
             (enumerate 0 produtos))))
      = sum_list (map (\<lambda>x. qtd v)
          (filter (\<lambda>(i, p). cod_produto v = codigo p \<and> is_confirmada (situacao v))
             (enumerate 0 produtos)))"
    by (simp add: comp_def case_prod_unfold)
  also have "\<dots> = qtd v * int (length
          (filter (\<lambda>(i, p). cod_produto v = codigo p \<and> is_confirmada (situacao v))
             (enumerate 0 produtos)))"
    by (simp add: sum_list_triv)
  also have "\<dots> = qtd v * int (length
          (filter (\<lambda>p. cod_produto v = codigo p \<and> is_confirmada (situacao v)) produtos))"
    by (simp only: length_filter_enumerate)
  also have "\<dots> = (if is_confirmada (situacao v)
          then qtd v * int (n_produtos_com_codigo produtos (cod_produto v)) else 0)"
    by (simp add: n_produtos_com_codigo_def eq_commute)
  finally show ?case using Cons.IH by (simp add: step)
qed

lemma sum_multigerar:
  "sum_list (map qtd_vendas (NecessidadeTransferencia_multigerar produtos vs))
     = sum_list (map (\<lambda>v. qtd v * int (n_produtos_com_codigo produtos (cod_produto v)))
         (filter (\<lambda>v. is_confirmada (situacao v)) vs))"
proof -
  let ?h = "\<lambda>vp. sum_list (map qtd (vendas vp))"
  have "sum_list (map qtd_vendas (NecessidadeTransferencia_multigerar produtos vs))
      = sum_list (map ?h (vendas_produtos_ordem_original produtos vs))"
    by (simp add: NecessidadeTransferencia_multigerar_def necessidade_def Let_def comp_def)
  also have "\<dots> = sum_list (map ?h (vendas_produtos_agrupados produtos vs))"
    by (simp only: vendas_produtos_ordem_original_def sum_list_sort_key)
  also have "\<dots> = sum_list (map (\<lambda>(k, grp). sum_list (map ?h grp))
        (groupby (\<lambda>vp. (index vp, produto vp)) (vendas_produtos_raw produtos vs)))"
    by (simp add: vendas_produtos_agrupados_def comp_def case_prod_unfold sum_list_concat_vendas)
  also have "\<dots> = sum_list (map ?h (vendas_produtos_raw produtos vs))"
    by (rule sum_list_groupby)
  also have "\<dots> = sum_list (map ?h (vendas_produtos_pares produtos vs))"
    by (simp only: vendas_produtos_raw_def sum_list_sort_key)
  finally show ?thesis by (simp only: sum_pares)
qed

lemma n_produtos_distinct:
  "distinct (map codigo produtos) \<Longrightarrow>
   n_produtos_com_codigo produtos c = (if c \<in> set (map codigo produtos) then 1 else 0)"
proof -
  assume "distinct (map codigo produtos)"
  then have "length (filter (\<lambda>m. m = c) (map codigo produtos))
      = (if c \<in> set (map codigo produtos) then 1 else 0)"
    by (rule distinct_ocorrencias)
  then show ?thesis by (simp add: n_produtos_com_codigo_def filter_map comp_def)
qed

lemma sum_confirmadas_distinct:
  "distinct (map codigo produtos) \<Longrightarrow>
   sum_list (map (\<lambda>v. qtd v * int (n_produtos_com_codigo produtos (cod_produto v)))
         (filter (\<lambda>v. is_confirmada (situacao v)) vs))
     = sum_list (map qtd (vendas_confirmadas_com_produto produtos vs))"
  by (induction vs) (simp_all add: n_produtos_distinct vendas_confirmadas_com_produto_def)

text \<open>
  C3 as stated fails when two products share a code: the one confirmed sale of 40 is
  joined to both entries, the two emitted records total 80, while the confirmed sales
  with a matching product total 40.
\<close>

theorem C3_counterexample:
  "sum_list (map qtd_vendas (NecessidadeTransferencia_multigerar
      [\<lparr>codigo = 1, qtd_estoque = 50, qtd_min_co = 20\<rparr>,
       \<lparr>codigo = 1, qtd_estoque = 5, qtd_min_co = 2\<rparr>]
      [\<lparr>cod_produto = 1, qtd = 40, situacao = CONFIRMADA_PGTO_OK, canal = WEBSITE\<rparr>])) = 80
   \<and> sum_list (map qtd (vendas_confirmadas_com_produto
      [\<lparr>codigo = 1, qtd_estoque = 50, qtd_min_co = 20\<rparr>,
       \<lparr>codigo = 1, qtd_estoque = 5, qtd_min_co = 2\<rparr>]
      [\<lparr>cod_produto = 1, qtd = 40, situacao = CONFIRMADA_PGTO_OK, canal = WEBSITE\<rparr>])) = 40"
  by (simp add: nt_eval vendas_confirmadas_com_produto_def)

text \<open>
  C3, amended. The total sold quantities of the emitted records sum to the quantities of
  the confirmed sales, each counted once for every product entry that carries its
  product code; when no two products share a code, that is the sum of the quantities of
  exactly the confirmed sales whose product code matches some product, each counted once.
\<close>

theorem C3_total_sold:
  "sum_list (map qtd_vendas (NecessidadeTransferencia_multigerar produtos vs))
     = sum_list (map (\<lambda>v. qtd v * int (n_produtos_com_codigo produtos (cod_produto v)))
         (filter (\<lambda>v. is_confirmada (situacao v)) vs))
   \<and> (distinct (map codigo produtos) \<longrightarrow>
        sum_list (map qtd_vendas (NecessidadeTransferencia_multigerar produtos vs))
          = sum_list (map qtd (vendas_confirmadas_com_produto produtos vs)))"
  using sum_multigerar[of produtos vs] sum_confirmadas_distinct[of produtos vs] by simp

text \<open>
  Two products with distinct codes; four sales of which one is cancelled and one names
  an unknown product: the records total 3 + 4.
\<close>

theorem C3_total_sold_witness:
  "distinct (map codigo [\<lparr>codigo = 2, qtd_estoque = 50, qtd_min_co = 20\<rparr>,
       \<lparr>codigo = 1, qtd_estoque = 5, qtd_min_co = 2\<rparr>])
   \<and> sum_list (map qtd_vendas (NecessidadeTransferencia_multigerar
      [\<lparr>codigo = 2, qtd_estoque = 50, qtd_min_co = 20\<rparr>,
       \<lparr>codigo = 1, qtd_estoque = 5, qtd_min_co = 2\<rparr>]
      [\<lparr>cod_produto = 1, qtd = 3, situacao = CONFIRMADA_PGTO_OK, canal = WEBSITE\<rparr>,
       \<lparr>cod_produto = 2, qtd = 4, situacao = CONFIRMADA_PGTO_PENDENTE, canal = APP_IOS\<rparr>,
       \<lparr>cod_produto = 2, qtd = 5, situacao = CANCELADA, canal = APP_IOS\<rparr>,
       \<lparr>cod_produto = 7, qtd = 6, situacao = CONFIRMADA_PGTO_OK, canal = WEBSITE\<rparr>])) = 7"
  using C3_total_sold
     [of "[\<lparr>codigo = 2, qtd_estoque = 50, qtd_min_co = 20\<rparr>,
           \<lparr>codigo = 1, qtd_estoque = 5, qtd_min_co = 2\<rparr>]"
      "[\<lparr>cod_produto = 1, qtd = 3, situacao = CONFIRMADA_PGTO_OK, canal = WEBSITE\<rparr>,
       \<lparr>cod_produto = 2, qtd = 4, situacao = CONFIRMADA_PGTO_PENDENTE, canal = APP_IOS\<rparr>,
       \<lparr>cod_produto = 2, qtd = 5, situacao = CANCELADA, canal = APP_IOS\<rparr>,
       \<lparr>cod_produto = 7, qtd = 6, situacao = CONFIRMADA_PGTO_OK, canal = WEBSITE\<rparr>]"]
  by (simp add: vendas_confirmadas_com_produto_def is_confirmada_def)


lemma enumerate_snd_membro: "(i, q) \<in> set (enumerate m ps) \<Longrightarrow> q \<in> set ps"
  by (auto simp: in_set_enumerate_eq)

lemma filter_primeiro:
  "distinct (map codigo ps) \<Longrightarrow>
   filter (\<lambda>(i, p). c = codigo p) (enumerate n ps)
     = (case List.find (\<lambda>(i, p). c = codigo p) (enumerate n ps) of
          None \<Rightarrow> [] | Some x \<Rightarrow> [x])"
proof (induction ps arbitrary: n)
  case Nil
  then show ?case by simp
next
  case (Cons p ps)
  show ?case
  proof (cases "c = codigo p")
    case True
    then have "c \<notin> set (map codigo ps)" using Cons.prems by simp
    then have "filter (\<lambda>(i, p). c = codigo p) (enumerate (Suc n) ps) = []"
      by (auto simp: filter_empty_conv dest: enumerate_snd_membro)
    then show ?thesis using True by simp
  next
    case False
    then show ?thesis using Cons by simp
  qed
qed

lemma pares_primeiro:
  "distinct (map codigo produtos) \<Longrightarrow>
   vendas_produtos_pares produtos vs = spec_juncao_primeiro produtos vs"
proof (induction vs)
  case Nil
  then show ?case by (simp add: vendas_produtos_pares_def spec_juncao_primeiro_def)
next
  case (Cons v vs)
  then have ih: "vendas_produtos_pares produtos vs = spec_juncao_primeiro produtos vs" by simp
  have step: "vendas_produtos_pares produtos (v # vs) =
      map (\<lambda>(i, p). \<lparr>index = i, produto = p, vendas = [v]\<rparr>)
        (filter (\<lambda>(i, p). cod_produto v = codigo p \<and> is_confirmada (situacao v))
           (enumerate 0 produtos))
      @ vendas_produtos_pares produtos vs"
    by (simp add: vendas_produtos_pares_def)
  show ?case
  proof (cases "is_confirmada (situacao v)")
    case True
    then have "filter (\<lambda>(i, p). cod_produto v = codigo p \<and> is_confirmada (situacao v))
           (enumerate 0 produtos)
        = (case List.find (\<lambda>(i, p). cod_produto v = codigo p) (enumerate 0 produtos) of
            None \<Rightarrow> [] | Some x \<Rightarrow> [x])"
      using filter_primeiro[OF Cons.prems, of "cod_produto v" 0] by simp
    then show ?thesis using True ih
      by (simp add: step spec_juncao_primeiro_def split: option.splits)
  next
    case False
    then show ?thesis using ih by (simp add: step spec_juncao_primeiro_def)
  qed
qed

lemma raw_membro:
  "vp \<in> set (vendas_produtos_raw produtos vs) \<longleftrightarrow>
     (\<exists>i v. i < length produtos \<and> v \<in> set vs \<and> is_confirmada (situacao v)
        \<and> cod_produto v = codigo (produtos ! i)
        \<and> vp = \<lparr>index = i, produto = produtos ! i, vendas = [v]\<rparr>)"
proof (intro iffI)
  assume "vp \<in> set (vendas_produtos_raw produtos vs)"
  then show "\<exists>i v. i < length produtos \<and> v \<in> set vs \<and> is_confirmada (situacao v)
        \<and> cod_produto v = codigo (produtos ! i)
        \<and> vp = \<lparr>index = i, produto = produtos ! i, vendas = [v]\<rparr>"
    unfolding vendas_produtos_raw_def vendas_produtos_pares_def
    by (auto simp: in_set_enumerate_eq)
next
  assume "\<exists>i v. i < length produtos \<and> v \<in> set vs \<and> is_confirmada (situacao v)
        \<and> cod_produto v = codigo (produtos ! i)
        \<and> vp = \<lparr>index = i, produto = produtos ! i, vendas = [v]\<rparr>"
  then obtain i v where iv: "i < length produtos" "v \<in> set vs" "is_confirmada (situacao v)"
    "cod_produto v = codigo (produtos ! i)"
    "vp = \<lparr>index = i, produto = produtos ! i, vendas = [v]\<rparr>" by blast
  have "(i, produtos ! i) \<in> set (filter
      (\<lambda>(i, p). cod_produto v = codigo p \<and> is_confirmada (situacao v)) (enumerate 0 produtos))"
    using iv by (simp add: in_set_enumerate_eq)
  then have "vp \<in> set (map (\<lambda>(i, p). \<lparr>index = i, produto = p, vendas = [v]\<rparr>) (filter
      (\<lambda>(i, p). cod_produto v = codigo p \<and> is_confirmada (situacao v)) (enumerate 0 produtos)))"
    unfolding iv(5) set_map by (rule rev_image_eqI) simp
  then show "vp \<in> set (vendas_produtos_raw produtos vs)"
    unfolding vendas_produtos_raw_def vendas_produtos_pares_def using iv(2) by auto
qed

text \<open>
  C1 as stated fails when two products share a code: the confirmed sale is joined to
  both entries, and the later duplicate gets a record of its own, while the join to the
  first matching product has the first entry only.
\<close>

theorem C1_counterexample:
  "vendas_produtos_raw
      [\<lparr>codigo = 1, qtd_estoque = 50, qtd_min_co = 20\<rparr>,
       \<lparr>codigo = 1, qtd_estoque = 5, qtd_min_co = 2\<rparr>]
      [\<lparr>cod_produto = 1, qtd = 40, situacao = CONFIRMADA_PGTO_OK, canal = WEBSITE\<rparr>]
    = [\<lparr>index = 0, produto = \<lparr>codigo = 1, qtd_estoque = 50, qtd_min_co = 20\<rparr>,
         vendas = [\<lparr>cod_produto = 1, qtd = 40, situacao = CONFIRMADA_PGTO_OK, canal = WEBSITE\<rparr>]\<rparr>,
       \<lparr>index = 1, produto = \<lparr>codigo = 1, qtd_estoque = 5, qtd_min_co = 2\<rparr>,
         vendas = [\<lparr>cod_produto = 1, qtd = 40, situacao = CONFIRMADA_PGTO_OK, canal = WEBSITE\<rparr>]\<rparr>]
   \<and> spec_juncao_primeiro
      [\<lparr>codigo = 1, qtd_estoque = 50, qtd_min_co = 20\<rparr>,
       \<lparr>codigo = 1, qtd_estoque = 5, qtd_min_co = 2\<rparr>]
      [\<lparr>cod_produto = 1, qtd = 40, situacao = CONFIRMADA_PGTO_OK, canal = WEBSITE\<rparr>]
    = [\<lparr>index = 0, produto = \<lparr>codigo = 1, qtd_estoque = 50, qtd_min_co = 20\<rparr>,
         vendas = [\<lparr>cod_produto = 1, qtd = 40, situacao = CONFIRMADA_PGTO_OK, canal = WEBSITE\<rparr>]\<rparr>]
   \<and> NecessidadeTransferencia_multigerar
      [\<lparr>codigo = 1, qtd_estoque = 50, qtd_min_co = 20\<rparr>,
       \<lparr>codigo = 1, qtd_estoque = 5, qtd_min_co = 2\<rparr>]
      [\<lparr>cod_produto = 1, qtd = 40, situacao = CONFIRMADA_PGTO_OK, canal = WEBSITE\<rparr>]
    = [\<lparr>cod_produto_nt = 1, qtd_produto_co = 50, qtd_min_produto_co = 20, qtd_vendas = 40,
         qtd_estoque_pos_vendas = 10, qtd_necessidade = 10, qtd_transf_arm_co = 10\<rparr>,
       \<lparr>cod_produto_nt = 1, qtd_produto_co = 5, qtd_min_produto_co = 2, qtd_vendas = 40,
         qtd_estoque_pos_vendas = - 35, qtd_necessidade = 37, qtd_transf_arm_co = 37\<rparr>]"
  by (simp add: nt_eval spec_juncao_primeiro_def)

text \<open>
  C1, amended. Every confirmed sale is joined to every product of the sequence whose
  code equals the sale's product code, and to nothing else; so where several products
  share a code each of them receives every confirmed sale of that code. When no two
  products share a code, this is the join of each confirmed sale to the first product
  with its code.
\<close>

theorem C1_join:
  "(vp \<in> set (vendas_produtos_raw produtos vs) \<longleftrightarrow>
     (\<exists>i v. i < length produtos \<and> v \<in> set vs \<and> is_confirmada (situacao v)
        \<and> cod_produto v = codigo (produtos ! i)
        \<and> vp = \<lparr>index = i, produto = produtos ! i, vendas = [v]\<rparr>))
   \<and> (distinct (map codigo produtos) \<longrightarrow>
        vendas_produtos_raw produtos vs
          = sort_key (\<lambda>vp. codigo (produto vp)) (spec_juncao_primeiro produtos vs))"
  using raw_membro[of vp produtos vs] pares_primeiro[of produtos vs]
  by (simp add: vendas_produtos_raw_def)

text \<open>
  Codes 2 and 1, sales of product 1, of product 2 and of the unknown product 7: the
  join, sorted by code, pairs each of the first two with its only product.
\<close>

theorem C1_join_witness:
  "distinct (map codigo [\<lparr>codigo = 2, qtd_estoque = 50, qtd_min_co = 20\<rparr>,
       \<lparr>codigo = 1, qtd_estoque = 5, qtd_min_co = 2\<rparr>])
   \<and> sort_key (\<lambda>vp. codigo (produto vp)) (spec_juncao_primeiro
      [\<lparr>codigo = 2, qtd_estoque = 50, qtd_min_co = 20\<rparr>,
       \<lparr>codigo = 1, qtd_estoque = 5, qtd_min_co = 2\<rparr>]
      [\<lparr>cod_produto = 2, qtd = 4, situacao = CONFIRMADA_PGTO_PENDENTE, canal = APP_IOS\<rparr>,
       \<lparr>cod_produto = 1, qtd = 3, situacao = CONFIRMADA_PGTO_OK, canal = WEBSITE\<rparr>,
       \<lparr>cod_produto = 7, qtd = 6, situacao = CONFIRMADA_PGTO_OK, canal = WEBSITE\<rparr>])
    = [\<lparr>index = 1, produto = \<lparr>codigo = 1, qtd_estoque = 5, qtd_min_co = 2\<rparr>,
         vendas = [\<lparr>cod_produto = 1, qtd = 3, situacao = CONFIRMADA_PGTO_OK, canal = WEBSITE\<rparr>]\<rparr>,
       \<lparr>index = 0, produto = \<lparr>codigo = 2, qtd_estoque = 50, qtd_min_co = 20\<rparr>,
         vendas = [\<lparr>cod_produto = 2, qtd = 4, situacao = CONFIRMADA_PGTO_PENDENTE,
                    canal = APP_IOS\<rparr>]\<rparr>]
   \<and> vendas_produtos_raw
      [\<lparr>codigo = 2, qtd_estoque = 50, qtd_min_co = 20\<rparr>,
       \<lparr>codigo = 1, qtd_estoque = 5, qtd_min_co = 2\<rparr>]
      [\<lparr>cod_produto = 2, qtd = 4, situacao = CONFIRMADA_PGTO_PENDENTE, canal = APP_IOS\<rparr>,
       \<lparr>cod_produto = 1, qtd = 3, situacao = CONFIRMADA_PGTO_OK, canal = WEBSITE\<rparr>,
       \<lparr>cod_produto = 7, qtd = 6, situacao = CONFIRMADA_PGTO_OK, canal = WEBSITE\<rparr>]
    = [\<lparr>index = 1, produto = \<lparr>codigo = 1, qtd_estoque = 5, qtd_min_co = 2\<rparr>,
         vendas = [\<lparr>cod_produto = 1, qtd = 3, situacao = CONFIRMADA_PGTO_OK, canal = WEBSITE\<rparr>]\<rparr>,
       \<lparr>index = 0, produto = \<lparr>codigo = 2, qtd_estoque = 50, qtd_min_co = 20\<rparr>,
         vendas = [\<lparr>cod_produto = 2, qtd = 4, situacao = CONFIRMADA_PGTO_PENDENTE,
                    canal = APP_IOS\<rparr>]\<rparr>]"
  using C1_join
     [of "\<lparr>index = 1, produto = \<lparr>codigo = 1, qtd_estoque = 5, qtd_min_co = 2\<rparr>,
         vendas = [\<lparr>cod_produto = 1, qtd = 3, situacao = CONFIRMADA_PGTO_OK, canal = WEBSITE\<rparr>]\<rparr>"
      "[\<lparr>codigo = 2, qtd_estoque = 50, qtd_min_co = 20\<rparr>,
           \<lparr>codigo = 1, qtd_estoque = 5, qtd_min_co = 2\<rparr>]"
      "[\<lparr>cod_produto = 2, qtd = 4, situacao = CONFIRMADA_PGTO_PENDENTE, canal = APP_IOS\<rparr>,
       \<lparr>cod_produto = 1, qtd = 3, situacao = CONFIRMADA_PGTO_OK, canal = WEBSITE\<rparr>,
       \<lparr>cod_produto = 7, qtd = 6, situacao = CONFIRMADA_PGTO_OK, canal = WEBSITE\<rparr>]"]
  by (simp add: spec_juncao_primeiro_def is_confirmada_def)

subsection \<open>Grouping a sorted list\<close>

lemma dropWhile_acima:
  fixes h :: "'a \<Rightarrow> 'b::linorder"
  shows "sorted (map h xs) \<Longrightarrow> \<forall>y \<in> set xs. c \<le> h y \<Longrightarrow>
    \<forall>y \<in> set (dropWhile (\<lambda>y. h y = c) xs). c < h y"
proof (induction xs)
  case Nil
  then show ?case by simp
next
  case (Cons a xs)
  show ?case
  proof (cases "h a = c")
    case True
    then show ?thesis using Cons by simp
  next
    case False
    then have "c < h a" using Cons.prems(2) by (simp add: order.strict_iff_order)
    moreover have "\<forall>y \<in> set xs. h a \<le> h y" using Cons.prems(1) by simp
    ultimately show ?thesis using False by auto
  qed
qed

lemma groupby_resto:
  fixes h :: "'a \<Rightarrow> 'b::linorder"
  assumes "sorted (map h (x # xs))"
    and "\<forall>a \<in> set (x # xs). \<forall>b \<in> set (x # xs). (g a = g b) = (h a = h b)"
  shows "\<forall>y \<in> set (dropWhile (\<lambda>y. g y = g x) xs). g y \<noteq> g x"
proof
  fix y assume y: "y \<in> set (dropWhile (\<lambda>y. g y = g x) xs)"
  have c: "(g a = g x) = (h a = h x)" if "a \<in> set xs" for a
    using assms(2) that by simp
  have eq: "dropWhile (\<lambda>y. g y = g x) xs = dropWhile (\<lambda>y. h y = h x) xs"
    by (rule dropWhile_cong) (simp_all add: c)
  have s: "sorted (map h xs)" and le: "\<forall>y \<in> set xs. h x \<le> h y" using assms(1) by simp_all
  have "\<forall>y \<in> set (dropWhile (\<lambda>y. h y = h x) xs). h x < h y"
    by (rule dropWhile_acima[OF s le])
  then have "h x < h y" using y unfolding eq by blast
  moreover have "y \<in> set xs" using y by (rule set_dropWhileD)
  ultimately show "g y \<noteq> g x" using c[of y] by simp
qed

lemma groupby_sorted:
  fixes h :: "'a \<Rightarrow> 'b::linorder"
  shows "sorted (map h xs) \<Longrightarrow>
    \<forall>a \<in> set xs. \<forall>b \<in> set xs. (g a = g b) = (h a = h b) \<Longrightarrow>
    distinct (map fst (groupby g xs))
    \<and> (\<forall>(k, grp) \<in> set (groupby g xs). grp = filter (\<lambda>y. g y = k) xs)
    \<and> fst ` set (groupby g xs) = g ` set xs"
proof (induction g xs rule: groupby.induct)
  case (1 g)
  then show ?case by simp
next
  case (2 g x xs)
  define tw where "tw = takeWhile (\<lambda>y. g y = g x) xs"
  define dw where "dw = dropWhile (\<lambda>y. g y = g x) xs"
  have split: "xs = tw @ dw" by (simp add: tw_def dw_def)
  have gb: "groupby g (x # xs) = (g x, x # tw) # groupby g dw"
    by (simp add: tw_def dw_def)
  have tw: "\<forall>y \<in> set tw. g y = g x"
    unfolding tw_def using set_takeWhileD[of _ "\<lambda>y. g y = g x" xs] by blast
  have dw: "\<forall>y \<in> set dw. g y \<noteq> g x"
    unfolding dw_def by (rule groupby_resto[OF "2.prems"])
  have "sorted (map h (tw @ dw))" using "2.prems"(1) unfolding split by simp
  then have sdw: "sorted (map h dw)" unfolding map_append sorted_append by simp
  have cdw: "\<forall>a \<in> set dw. \<forall>b \<in> set dw. (g a = g b) = (h a = h b)"
  proof (intro ballI)
    fix a b assume "a \<in> set dw" "b \<in> set dw"
    then have "a \<in> set (x # xs)" "b \<in> set (x # xs)" unfolding split by simp_all
    then show "(g a = g b) = (h a = h b)" using "2.prems"(2) by blast
  qed
  note ih = "2.IH"[folded dw_def, OF sdw cdw]
  have ftw: "filter (\<lambda>y. g y = g x) xs = tw"
  proof -
    have "filter (\<lambda>y. g y = g x) tw = tw" using tw by (simp add: filter_id_conv)
    moreover have "filter (\<lambda>y. g y = g x) dw = []" using dw by (simp add: filter_empty_conv)
    ultimately show ?thesis unfolding split by simp
  qed
  have fdw: "filter (\<lambda>y. g y = k) (x # xs) = filter (\<lambda>y. g y = k) dw" if "k \<noteq> g x" for k
  proof -
    have "filter (\<lambda>y. g y = k) tw = []" using tw that by (simp add: filter_empty_conv)
    then show ?thesis using that unfolding split by simp
  qed
  have keys: "fst ` set (groupby g dw) = g ` set dw" using ih by (rule conjunct2[THEN conjunct2])
  have notin: "g x \<notin> fst ` set (groupby g dw)"
  proof
    assume "g x \<in> fst ` set (groupby g dw)"
    then have "g x \<in> g ` set dw" by (simp only: keys)
    then obtain y where "y \<in> set dw" "g x = g y" by (rule imageE)
    then show False using dw[rule_format, of y] by simp
  qed
  have d: "distinct (map fst (groupby g (x # xs)))"
    unfolding gb using ih[THEN conjunct1] notin by simp
  have grp: "\<forall>(k, grp) \<in> set (groupby g (x # xs)). grp = filter (\<lambda>y. g y = k) (x # xs)"
  proof -
    have "grp = filter (\<lambda>y. g y = k) (x # xs)" if m: "(k, grp) \<in> set (groupby g dw)" for k grp
    proof -
      have "k \<in> fst ` set (groupby g dw)" using m by (rule rev_image_eqI) simp
      then have "k \<noteq> g x" using notin by blast
      moreover have "\<forall>(k, grp) \<in> set (groupby g dw). grp = filter (\<lambda>y. g y = k) dw"
        using ih by (rule conjunct2[THEN conjunct1])
      then have "grp = filter (\<lambda>y. g y = k) dw" using m by blast
      ultimately show "grp = filter (\<lambda>y. g y = k) (x # xs)" using fdw[of k] by simp
    qed
    note rest = this
    have first: "x # tw = filter (\<lambda>y. g y = g x) (x # xs)" using ftw by simp
    show ?thesis unfolding gb
    proof (intro ballI)
      fix kg assume "kg \<in> set ((g x, x # tw) # groupby g dw)"
      then consider "kg = (g x, x # tw)" | "kg \<in> set (groupby g dw)" by auto
      then show "case kg of (k, grp) \<Rightarrow> grp = filter (\<lambda>y. g y = k) (x # xs)"
      proof cases
        case 1
        then show ?thesis using first by simp
      next
        case 2
        obtain k grp where kg: "kg = (k, grp)" by (cases kg)
        show ?thesis using rest[of k grp] 2 unfolding kg by simp
      qed
    qed
  qed
  have "g ` set (x # xs) = insert (g x) (g ` set dw)"
    unfolding split using tw by auto
  then have k: "fst ` set (groupby g (x # xs)) = g ` set (x # xs)"
    unfolding gb using keys by simp
  show ?case by (intro conjI d grp k)
qed

subsection \<open>The grouped join when product codes are pairwise distinct\<close>

lemma filter_igual_distinct: "distinct xs \<Longrightarrow> a \<in> set xs \<Longrightarrow> filter (\<lambda>y. y = a) xs = [a]"
proof (induction xs)
  case Nil
  then show ?case by simp
next
  case (Cons x xs)
  show ?case
  proof (cases "x = a")
    case True
    then have "a \<notin> set xs" using Cons.prems(1) by simp
    then have "filter (\<lambda>y. y = a) xs = []" by (auto simp: filter_empty_conv)
    then show ?thesis using True by simp
  next
    case False
    then show ?thesis using Cons by simp
  qed
qed

lemma sorted_constante: "\<forall>y \<in> set ys. h y = c \<Longrightarrow> sorted (map h ys)"
  for h :: "'a \<Rightarrow> 'b::linorder"
  by (induction ys) simp_all

lemma filtro_pares:
  assumes "i < length produtos"
  shows "filter (\<lambda>vp. (index vp, produto vp) = (i, produtos ! i)) (vendas_produtos_pares produtos vs)
    = map (\<lambda>v. \<lparr>index = i, produto = produtos ! i, vendas = [v]\<rparr>)
        (filter (\<lambda>v. is_confirmada (situacao v) \<and> cod_produto v = codigo (produtos ! i)) vs)"
proof (induction vs)
  case Nil
  then show ?case by (simp add: vendas_produtos_pares_def)
next
  case (Cons v vs)
  let ?c = "cod_produto v = codigo (produtos ! i) \<and> is_confirmada (situacao v)"
  have step: "vendas_produtos_pares produtos (v # vs) =
      map (\<lambda>(i, p). \<lparr>index = i, produto = p, vendas = [v]\<rparr>)
        (filter (\<lambda>(i, p). cod_produto v = codigo p \<and> is_confirmada (situacao v))
           (enumerate 0 produtos))
      @ vendas_produtos_pares produtos vs"
    by (simp add: vendas_produtos_pares_def)
  have m: "(i, produtos ! i) \<in> set (enumerate 0 produtos)"
    using assms by (simp add: in_set_enumerate_eq)
  have one: "filter (\<lambda>y. y = (i, produtos ! i)) (enumerate 0 produtos) = [(i, produtos ! i)]"
    by (rule filter_igual_distinct[OF distinct_enumerate m])
  have "filter (\<lambda>vp. (index vp, produto vp) = (i, produtos ! i))
        (map (\<lambda>(i, p). \<lparr>index = i, produto = p, vendas = [v]\<rparr>)
          (filter (\<lambda>(i, p). cod_produto v = codigo p \<and> is_confirmada (situacao v))
             (enumerate 0 produtos)))
      = map (\<lambda>(i, p). \<lparr>index = i, produto = p, vendas = [v]\<rparr>)
          (filter (\<lambda>y. y = (i, produtos ! i) \<and> ?c) (enumerate 0 produtos))"
  proof -
    have "filter ((\<lambda>vp. (index vp, produto vp) = (i, produtos ! i))
            \<circ> (\<lambda>(i, p). \<lparr>index = i, produto = p, vendas = [v]\<rparr>))
          (filter (\<lambda>(i, p). cod_produto v = codigo p \<and> is_confirmada (situacao v))
             (enumerate 0 produtos))
        = filter (\<lambda>y. y = (i, produtos ! i) \<and> ?c) (enumerate 0 produtos)"
      unfolding filter_filter by (rule filter_cong) auto
    then show ?thesis by (simp only: filter_map)
  qed
  also have "\<dots> = (if ?c then [\<lparr>index = i, produto = produtos ! i, vendas = [v]\<rparr>] else [])"
    using one by (cases ?c) simp_all
  finally show ?case using Cons.IH by (simp add: step)
qed

lemma filtro_raw:
  assumes "i < length produtos"
  shows "filter (\<lambda>vp. (index vp, produto vp) = (i, produtos ! i)) (vendas_produtos_raw produtos vs)
    = map (\<lambda>v. \<lparr>index = i, produto = produtos ! i, vendas = [v]\<rparr>)
        (filter (\<lambda>v. is_confirmada (situacao v) \<and> cod_produto v = codigo (produtos ! i)) vs)"
proof -
  let ?P = "\<lambda>vp. (index vp, produto vp) = (i, produtos ! i)"
  let ?h = "\<lambda>vp. codigo (produto vp)"
  have "filter ?P (vendas_produtos_raw produtos vs)
      = sort_key ?h (filter ?P (vendas_produtos_pares produtos vs))"
    unfolding vendas_produtos_raw_def by (rule filter_sort)
  also have "\<dots> = filter ?P (vendas_produtos_pares produtos vs)"
  proof (rule sort_key_id_if_sorted)
    have "\<forall>y \<in> set (filter ?P (vendas_produtos_pares produtos vs)). ?h y = codigo (produtos ! i)"
      by simp
    then show "sorted (map ?h (filter ?P (vendas_produtos_pares produtos vs)))"
      by (rule sorted_constante)
  qed
  finally show ?thesis by (simp only: filtro_pares[OF assms])
qed

lemma raw_compativel:
  assumes "distinct (map codigo produtos)"
  shows "\<forall>a \<in> set (vendas_produtos_raw produtos vs). \<forall>b \<in> set (vendas_produtos_raw produtos vs).
      ((index a, produto a) = (index b, produto b)) = (codigo (produto a) = codigo (produto b))"
proof (intro ballI)
  fix a b
  assume "a \<in> set (vendas_produtos_raw produtos vs)" "b \<in> set (vendas_produtos_raw produtos vs)"
  then obtain i j where i: "i < length produtos" "index a = i" "produto a = produtos ! i"
    and j: "j < length produtos" "index b = j" "produto b = produtos ! j"
    unfolding raw_membro by auto
  have "(map codigo produtos ! i = map codigo produtos ! j) = (i = j)"
    using assms i(1) j(1) by (intro nth_eq_iff_index_eq) simp_all
  then have "(codigo (produtos ! i) = codigo (produtos ! j)) = (i = j)"
    using i(1) j(1) by simp
  then show "((index a, produto a) = (index b, produto b)) = (codigo (produto a) = codigo (produto b))"
    unfolding i(2,3) j(2,3) by auto
qed

lemma chaves_raw:
  "(\<lambda>vp. (index vp, produto vp)) ` set (vendas_produtos_raw produtos vs)
    = set (filter (\<lambda>(i, p). \<exists>v \<in> set vs. is_confirmada (situacao v) \<and> cod_produto v = codigo p)
        (enumerate 0 produtos))"
proof (intro set_eqI iffI)
  fix k assume "k \<in> (\<lambda>vp. (index vp, produto vp)) ` set (vendas_produtos_raw produtos vs)"
  then obtain vp where "vp \<in> set (vendas_produtos_raw produtos vs)" "k = (index vp, produto vp)"
    by (rule imageE)
  then show "k \<in> set (filter (\<lambda>(i, p). \<exists>v \<in> set vs. is_confirmada (situacao v)
      \<and> cod_produto v = codigo p) (enumerate 0 produtos))"
    unfolding raw_membro by (auto simp: in_set_enumerate_eq)
next
  fix k assume "k \<in> set (filter (\<lambda>(i, p). \<exists>v \<in> set vs. is_confirmada (situacao v)
      \<and> cod_produto v = codigo p) (enumerate 0 produtos))"
  then have "\<exists>i v. k = (i, produtos ! i) \<and> i < length produtos \<and> v \<in> set vs
    \<and> is_confirmada (situacao v) \<and> cod_produto v = codigo (produtos ! i)"
    by (auto simp: in_set_enumerate_eq)
  then obtain i v where iv: "k = (i, produtos ! i)" "i < length produtos" "v \<in> set vs"
    "is_confirmada (situacao v)" "cod_produto v = codigo (produtos ! i)"
    by blast
  then have "\<lparr>index = i, produto = produtos ! i, vendas = [v]\<rparr> \<in> set (vendas_produtos_raw produtos vs)"
    unfolding raw_membro by blast
  then show "k \<in> (\<lambda>vp. (index vp, produto vp)) ` set (vendas_produtos_raw produtos vs)"
    unfolding iv(1) by (rule rev_image_eqI) simp
qed

text \<open>
  When no two products share a code, the grouped join in original order has exactly one
  entry for each product that has a confirmed sale, in the order of the product
  sequence, holding all the confirmed sales of the product's code: what C2 states.
\<close>

lemma ordem_original_codigos_distintos:
  assumes "distinct (map codigo produtos)"
  shows "vendas_produtos_ordem_original produtos vs =
    map (\<lambda>(i, p). \<lparr>index = i, produto = p,
            vendas = filter (\<lambda>v. is_confirmada (situacao v) \<and> cod_produto v = codigo p) vs\<rparr>)
      (filter (\<lambda>(i, p). \<exists>v \<in> set vs. is_confirmada (situacao v) \<and> cod_produto v = codigo p)
         (enumerate 0 produtos))"
proof -
  let ?g = "\<lambda>vp. (index vp, produto vp)"
  let ?h = "\<lambda>vp. codigo (produto vp)"
  let ?raw = "vendas_produtos_raw produtos vs"
  let ?F = "\<lambda>(i, p). \<lparr>index = i, produto = p,
            vendas = filter (\<lambda>v. is_confirmada (situacao v) \<and> cod_produto v = codigo p) vs\<rparr>"
  let ?E = "filter (\<lambda>(i, p). \<exists>v \<in> set vs. is_confirmada (situacao v) \<and> cod_produto v = codigo p)
         (enumerate 0 produtos)"
  define K where "K = map fst (groupby ?g ?raw)"
  have s: "sorted (map ?h ?raw)" by (simp add: vendas_produtos_raw_def)
  note gs = groupby_sorted[OF s raw_compativel[OF assms]]
  have dK: "distinct K" unfolding K_def using gs by (rule conjunct1)
  have grupos: "\<forall>(k, grp) \<in> set (groupby ?g ?raw). grp = filter (\<lambda>y. ?g y = k) ?raw"
    using gs by (rule conjunct2[THEN conjunct1])
  have "fst ` set (groupby ?g ?raw) = ?g ` set ?raw" using gs by (rule conjunct2[THEN conjunct2])
  then have sK: "set K = set ?E" unfolding K_def by (simp only: set_map chaves_raw)
  have agr: "vendas_produtos_agrupados produtos vs = map ?F K"
  proof -
    have "(\<lambda>(rvp, vps). \<lparr>index = fst rvp, produto = snd rvp, vendas = concat (map vendas vps)\<rparr>) kg
        = ?F (fst kg)" if kg: "kg \<in> set (groupby ?g ?raw)" for kg
    proof -
      obtain k grp where e: "kg = (k, grp)" by (cases kg)
      have "k \<in> set K" unfolding K_def using kg e by force
      then have "k \<in> set ?E" by (simp only: sK)
      then have "\<exists>i. k = (i, produtos ! i) \<and> i < length produtos"
        by (auto simp: in_set_enumerate_eq)
      then obtain i where i: "k = (i, produtos ! i)" "i < length produtos"
        by blast
      have "grp = filter (\<lambda>y. ?g y = k) ?raw" using grupos kg e by blast
      then have "grp = map (\<lambda>v. \<lparr>index = i, produto = produtos ! i, vendas = [v]\<rparr>)
          (filter (\<lambda>v. is_confirmada (situacao v) \<and> cod_produto v = codigo (produtos ! i)) vs)"
        unfolding i(1) by (simp only: filtro_raw[OF i(2)])
      then have "concat (map vendas grp)
          = filter (\<lambda>v. is_confirmada (situacao v) \<and> cod_produto v = codigo (produtos ! i)) vs"
        by (simp add: comp_def)
      then show ?thesis unfolding e i(1) by simp
    qed
    then show ?thesis unfolding vendas_produtos_agrupados_def K_def by (simp add: comp_def)
  qed
  have injE: "inj_on fst (set ?E)"
  proof -
    have "distinct (map fst (enumerate 0 produtos))" by simp
    then have "inj_on fst (set (enumerate 0 produtos))" by (simp only: distinct_map)
    then show ?thesis by (rule inj_on_subset) simp
  qed
  have iF: "index (?F k) = fst k" for k by (cases k) simp
  have mi: "map index (map ?F ks) = map fst ks" for ks by (simp add: comp_def iF)
  have dE: "distinct (map index (map ?F ?E))"
    unfolding mi using injE by (simp add: distinct_map)
  have sE: "sorted (map index (map ?F ?E))"
  proof -
    have "sorted_wrt (<) (map fst ?E)"
      by (simp add: sorted_wrt_map sorted_wrt_filter enumerate_strict)
    then show ?thesis unfolding mi by (simp add: strict_sorted_iff)
  qed
  let ?xs = "sort_key index (map ?F K)"
  have "mset (map index ?xs) = mset (map index (map ?F K))"
    by (simp only: mset_map mset_sort)
  then have "distinct (map index ?xs) = distinct (map index (map ?F K))"
    by (rule mset_eq_imp_distinct_iff)
  moreover have "distinct (map index (map ?F K))"
    unfolding mi using dK injE sK by (simp add: distinct_map)
  ultimately have dx: "distinct (map index ?xs)" by simp
  have sx: "sorted (map index ?xs)" by simp
  have sets: "set ?xs = set (map ?F ?E)" using sK by simp
  have "inj_on index (set (map ?F ?E))" using dE by (simp only: distinct_map)
  then have inj: "inj_on index (set ?xs \<union> set (map ?F ?E))" unfolding sets by simp
  have "?xs = map ?F ?E"
    by (rule map_sorted_distinct_set_unique[OF inj sx dx sE dE sets])
  then show ?thesis unfolding vendas_produtos_ordem_original_def agr .
qed

lemma multigerar_codigos_distintos:
  assumes "distinct (map codigo produtos)"
  shows "NecessidadeTransferencia_multigerar produtos vs =
    map (\<lambda>(i, p). necessidade \<lparr>index = i, produto = p,
            vendas = filter (\<lambda>v. is_confirmada (situacao v) \<and> cod_produto v = codigo p) vs\<rparr>)
      (filter (\<lambda>(i, p). \<exists>v \<in> set vs. is_confirmada (situacao v) \<and> cod_produto v = codigo p)
         (enumerate 0 produtos))"
  unfolding NecessidadeTransferencia_multigerar_def ordem_original_codigos_distintos[OF assms]
  by (simp add: comp_def case_prod_unfold)

text \<open>Whatever the codes, the entries come in ascending order of the product index.\<close>

lemma ordem_original_por_indice:
  "sorted (map index (vendas_produtos_ordem_original produtos vs))"
  by (simp add: vendas_produtos_ordem_original_def)

text \<open>
  C2 on products that share a code. The join is sorted by product code only, while
  \<open>groupby\<close> groups by index and product: with two entries of code 1 and two confirmed
  sales of 3 and 4, the sorted join alternates between the two entries, every run has
  length one, and four records come out, two for each entry, each with the quantity of
  a single sale, where one record of 7 per entry is expected.
\<close>

theorem C2_duplicate_codes:
  "map index (vendas_produtos_raw
      [\<lparr>codigo = 1, qtd_estoque = 50, qtd_min_co = 20\<rparr>,
       \<lparr>codigo = 1, qtd_estoque = 5, qtd_min_co = 2\<rparr>]
      [\<lparr>cod_produto = 1, qtd = 3, situacao = CONFIRMADA_PGTO_OK, canal = WEBSITE\<rparr>,
       \<lparr>cod_produto = 1, qtd = 4, situacao = CONFIRMADA_PGTO_OK, canal = WEBSITE\<rparr>])
    = [0, 1, 0, 1]
   \<and> map index (vendas_produtos_ordem_original
      [\<lparr>codigo = 1, qtd_estoque = 50, qtd_min_co = 20\<rparr>,
       \<lparr>codigo = 1, qtd_estoque = 5, qtd_min_co = 2\<rparr>]
      [\<lparr>cod_produto = 1, qtd = 3, situacao = CONFIRMADA_PGTO_OK, canal = WEBSITE\<rparr>,
       \<lparr>cod_produto = 1, qtd = 4, situacao = CONFIRMADA_PGTO_OK, canal = WEBSITE\<rparr>])
    = [0, 0, 1, 1]
   \<and> NecessidadeTransferencia_multigerar
      [\<lparr>codigo = 1, qtd_estoque = 50, qtd_min_co = 20\<rparr>,
       \<lparr>codigo = 1, qtd_estoque = 5, qtd_min_co = 2\<rparr>]
      [\<lparr>cod_produto = 1, qtd = 3, situacao = CONFIRMADA_PGTO_OK, canal = WEBSITE\<rparr>,
       \<lparr>cod_produto = 1, qtd = 4, situacao = CONFIRMADA_PGTO_OK, canal = WEBSITE\<rparr>]
    = [\<lparr>cod_produto_nt = 1, qtd_produto_co = 50, qtd_min_produto_co = 20, qtd_vendas = 3,
         qtd_estoque_pos_vendas = 47, qtd_necessidade = 0, qtd_transf_arm_co = 0\<rparr>,
       \<lparr>cod_produto_nt = 1, qtd_produto_co = 50, qtd_min_produto_co = 20, qtd_vendas = 4,
         qtd_estoque_pos_vendas = 46, qtd_necessidade = 0, qtd_transf_arm_co = 0\<rparr>,
       \<lparr>cod_produto_nt = 1, qtd_produto_co = 5, qtd_min_produto_co = 2, qtd_vendas = 3,
         qtd_estoque_pos_vendas = 2, qtd_necessidade = 0, qtd_transf_arm_co = 0\<rparr>,
       \<lparr>cod_produto_nt = 1, qtd_produto_co = 5, qtd_min_produto_co = 2, qtd_vendas = 4,
         qtd_estoque_pos_vendas = 1, qtd_necessidade = 1, qtd_transf_arm_co = 1\<rparr>]"
  by (simp add: nt_eval)


end
